(* ===== verification/Prelude.thy ===== *)
theory Prelude
  imports Main
begin

text \<open>
  Shared vocabulary of the development: the few JavaScript primitives the widget in
  \<^verbatim>\<open>src/header.js\<close> relies on, written out with their JavaScript meaning, and
  the generic list lemmas the component theories use.
  \<^item> \<open>js_rem\<close> is the remainder operator \<^verbatim>\<open>%\<close> on (integral) numbers: it truncates
    towards zero, so its sign follows the dividend, and \<^verbatim>\<open>x % 0\<close> is \<^verbatim>\<open>NaN\<close>
    (here \<open>None\<close>);
  \<^item> \<open>js_at\<close> is an array read \<^verbatim>\<open>xs[k]\<close>: \<^verbatim>\<open>undefined\<close> (here \<open>None\<close>) for
    a negative, too large or \<^verbatim>\<open>NaN\<close> index;
  \<^item> \<open>index_of\<close> is \<^verbatim>\<open>Array.prototype.indexOf\<close>: the first position, or \<open>-1\<close>.
  Numbers that are array indices are integral and far below \<open>2^53\<close>, so \<open>int\<close> is
  exact for them.
\<close>

type_synonym key = string

named_theorems js_simps "evaluation rules of the JavaScript primitives"

definition js_rem :: "int \<Rightarrow> int \<Rightarrow> int option" where
  "js_rem a b = (if b = 0 then None else Some (sgn a * (\<bar>a\<bar> mod \<bar>b\<bar>)))"

definition js_at :: "'a list \<Rightarrow> int option \<Rightarrow> 'a option" where
  "js_at xs k =
     (case k of
        None \<Rightarrow> None
      | Some i \<Rightarrow> if 0 \<le> i \<and> i < int (length xs) then Some (xs ! nat i) else None)"

fun index_of :: "'a list \<Rightarrow> 'a \<Rightarrow> int" where
  "index_of [] x = -1"
| "index_of (y # ys) x = (if y = x then 0 else (let i = index_of ys x in if i < 0 then -1 else i + 1))"

subsection \<open>The remainder operator\<close>

lemma js_rem_nonneg [js_simps]:
  assumes "0 \<le> a" and "0 < b"
  shows "js_rem a b = Some (a mod b)"
  using assms by (cases "a = 0") (auto simp: js_rem_def sgn_if)

lemma js_rem_minus_one_one [js_simps]: "js_rem (-1) 1 = Some 0"
  by (simp add: js_rem_def)

text \<open>
  The remainder stays an index whenever the dividend is not negative, and in the one
  negative case an index computation \<open>(i - 1 + n) % n\<close> with \<open>i \<ge> -1\<close> can meet:
  \<open>-1 % 1\<close>, which is \<open>-0\<close>, read as index \<open>0\<close>.
\<close>

lemma js_rem_index_range:
  assumes "-1 \<le> a" and "0 < b" and "a = -1 \<longrightarrow> b = 1"
  shows "\<exists>r. js_rem a b = Some r \<and> 0 \<le> r \<and> r < b"
proof (cases "0 \<le> a")
  case True
  with assms(2) show ?thesis by (simp add: js_rem_nonneg)
next
  case False
  with assms have "a = -1" and "b = 1" by auto
  then show ?thesis by (simp add: js_rem_minus_one_one)
qed

lemma neg_mod_int: "0 < k \<Longrightarrow> k \<le> (n::int) \<Longrightarrow> (- k) mod n = n - k"
proof -
  assume "0 < k" "k \<le> n"
  then have "(n - k) mod n = n - k" by (intro mod_pos_pos_trivial) simp_all
  moreover have "(n - k) mod n = (- k) mod n" by (simp add: mod_diff_left_eq [symmetric])
  ultimately show ?thesis by simp
qed

subsection \<open>Array reads\<close>

lemma js_at_Some [js_simps]:
  assumes "0 \<le> i" and "i < int (length xs)"
  shows "js_at xs (Some i) = Some (xs ! nat i)"
  using assms by (simp add: js_at_def)

lemma js_at_None_iff:
  "js_at xs k = None \<longleftrightarrow> (\<forall>i. k = Some i \<longrightarrow> i < 0 \<or> int (length xs) \<le> i)"
  by (auto simp: js_at_def split: option.splits)

subsection \<open>Lists\<close>

lemma find_conv_filter: "find P xs = (case filter P xs of [] \<Rightarrow> None | x # _ \<Rightarrow> Some x)"
  by (induction xs) auto

lemma int_length_ge1: "xs \<noteq> [] \<Longrightarrow> 1 \<le> int (length xs)"
  by (cases xs) auto

lemma int_length_pred: "xs \<noteq> [] \<Longrightarrow> int (length xs - 1) + 1 = int (length xs)"
  by (cases xs) auto

lemma nat_int_minus_one [simp]: "nat (int n - 1) = n - 1"
  by arith

subsection \<open>indexOf\<close>

lemma index_of_bounds: "-1 \<le> index_of xs x \<and> index_of xs x < int (length xs)"
  by (induction xs) (auto simp: Let_def)

lemma index_of_neg_iff [simp]: "index_of xs x < 0 \<longleftrightarrow> x \<notin> set xs"
  by (induction xs) (auto simp: Let_def)

lemma index_of_notin [simp]: "x \<notin> set xs \<Longrightarrow> index_of xs x = -1"
  by (induction xs) (auto simp: Let_def)

lemma index_of_nth:
  assumes "x \<in> set xs"
  shows "0 \<le> index_of xs x \<and> xs ! nat (index_of xs x) = x"
  using assms
proof (induction xs)
  case Nil
  then show ?case by simp
next
  case (Cons y ys)
  show ?case
  proof (cases "y = x")
    case True
    then show ?thesis by simp
  next
    case False
    with Cons.prems have "x \<in> set ys" by simp
    with Cons.IH have "0 \<le> index_of ys x" and "ys ! nat (index_of ys x) = x" by simp_all
    with False \<open>x \<in> set ys\<close> show ?thesis by (simp add: Let_def nat_add_distrib)
  qed
qed

lemma index_of_distinct_nth:
  assumes "distinct xs" and "i < length xs"
  shows "index_of xs (xs ! i) = int i"
  using assms
proof (induction xs arbitrary: i)
  case Nil
  then show ?case by simp
next
  case (Cons y ys)
  show ?case
  proof (cases i)
    case 0
    then show ?thesis by simp
  next
    case (Suc j)
    with Cons.prems have "j < length ys" and "distinct ys" and "ys ! j \<noteq> y"
      by (auto simp: nth_mem)
    with Cons.IH Suc show ?thesis by (simp add: Let_def)
  qed
qed

end
