(* ===== verification/Dom.thy ===== *)
theory Dom
  imports Prelude
begin

text \<open>
  The part of the browser document the widget of \<^verbatim>\<open>src/header.js\<close> reads and writes.
  The trigger (\<^verbatim>\<open>#topMenuBtn\<close>) and the panel (\<^verbatim>\<open>#topMenuDropdown\<close>) are fixed
  elements of the host page; the panel's content is a list of elements in document order,
  each with the attributes the code's selectors look at. The widget's own state (the
  closure variable \<^verbatim>\<open>menuLoaded\<close>, the global \<^verbatim>\<open>window._headerInitDone\<close>) and the
  parts of the document it mutates (the trigger's \<^verbatim>\<open>aria-expanded\<close>, the panel's
  \<^verbatim>\<open>open\<close> class and content, \<^verbatim>\<open>document.activeElement\<close>, the listeners on
  \<^verbatim>\<open>document\<close>) form one record, \<open>page\<close>, threaded through every handler.
\<close>

subsection \<open>Elements of the panel's content\<close>

datatype tag = Tag_A | Tag_Button | Tag_Ul | Tag_Other string

text \<open>
  One element of the panel. \<open>eid\<close> is its identity (JavaScript compares element objects
  by reference); \<open>tabindex\<close> is the raw attribute text, as the selector
  \<^verbatim>\<open>[tabindex]:not([tabindex="-1"])\<close> compares it; \<open>keydown_esc\<close> records the
  Escape listener the loader attaches to links; \<open>anchor_anc\<close> is the nearest enclosing
  \<^verbatim>\<open><a>\<close> inside the panel (HTML parsing never nests anchors, so there is at most one
  anchor on an element's path to the panel).
\<close>

record elem =
  eid :: nat
  tag :: tag
  tabindex :: "string option"
  role :: "string option"
  keydown_esc :: bool
  anchor_anc :: "nat option"

datatype placeholder = Loading | No_Nav | Load_Failed

text \<open>
  The panel's content: the host's initial markup or a fetched fragment (its elements),
  or one of the three \<^verbatim>\<open><div class="menu-note">\<close> placeholders the code writes,
  which contain no element any selector of the code matches.
\<close>

datatype panel = Fragment "elem list" | Note placeholder

fun panel_elems :: "panel \<Rightarrow> elem list" where
  "panel_elems (Fragment es) = es"
| "panel_elems (Note _) = []"

text \<open>The selector \<^verbatim>\<open>'a, button, [tabindex]:not([tabindex="-1"])'\<close>.\<close>

definition focusable :: "elem \<Rightarrow> bool" where
  "focusable e \<longleftrightarrow>
     tag e = Tag_A \<or> tag e = Tag_Button \<or> (tabindex e \<noteq> None \<and> tabindex e \<noteq> Some ''-1'')"

definition is_anchor :: "elem \<Rightarrow> bool" where
  "is_anchor e \<longleftrightarrow> tag e = Tag_A"

text \<open>\<^verbatim>\<open>dropdown.querySelectorAll(sel)\<close> and \<^verbatim>\<open>dropdown.querySelector(sel)\<close>.\<close>

definition query_focusables :: "panel \<Rightarrow> elem list" where
  "query_focusables p = filter focusable (panel_elems p)"

definition query_first_focusable :: "panel \<Rightarrow> elem option" where
  "query_first_focusable p = find focusable (panel_elems p)"

definition query_anchors :: "panel \<Rightarrow> elem list" where
  "query_anchors p = filter is_anchor (panel_elems p)"

definition has_ul :: "panel \<Rightarrow> bool" where
  "has_ul p \<longleftrightarrow> list_ex (\<lambda>e. tag e = Tag_Ul) (panel_elems p)"

subsection \<open>Event targets and focus\<close>

text \<open>
  Where a click lands or what has the focus: the trigger (or a child of it), the panel
  itself (or a placeholder inside it), an element of the panel's content by identity,
  or anything else on the page (\<^verbatim>\<open>document.body\<close> included).
\<close>

datatype target = T_Btn | T_Panel | T_Item nat | T_Outside

definition item_ids :: "panel \<Rightarrow> nat list" where
  "item_ids p = map eid (panel_elems p)"

text \<open>\<^verbatim>\<open>dropdown.contains(t)\<close>: the panel and its descendants.\<close>

fun panel_contains :: "panel \<Rightarrow> target \<Rightarrow> bool" where
  "panel_contains p T_Panel = True"
| "panel_contains p (T_Item i) = (i \<in> set (item_ids p))"
| "panel_contains p _ = False"

text \<open>Element identities of one content are distinct: each is a separate DOM node.\<close>

definition wf_panel :: "panel \<Rightarrow> bool" where
  "wf_panel p \<longleftrightarrow> distinct (item_ids p)"

definition lookup_elem :: "panel \<Rightarrow> nat \<Rightarrow> elem option" where
  "lookup_elem p i = find (\<lambda>e. eid e = i) (panel_elems p)"

text \<open>\<^verbatim>\<open>t.closest('a')\<close> for a click target, as the identity of the anchor found.\<close>

fun closest_anchor :: "panel \<Rightarrow> target \<Rightarrow> nat option" where
  "closest_anchor p (T_Item i) =
     (case lookup_elem p i of
        None \<Rightarrow> None
      | Some e \<Rightarrow> if is_anchor e then Some i else anchor_anc e)"
| "closest_anchor p _ = None"

subsection \<open>The page\<close>

text \<open>Listeners the widget adds to \<^verbatim>\<open>document\<close>: \<^verbatim>\<open>outsideClickHandler\<close> and \<^verbatim>\<open>keyHandler\<close>.\<close>

datatype listener = Outside_Click | Key_Handler

text \<open>Why a load failed: what \<^verbatim>\<open>console.error\<close> receives in the catch block.\<close>

datatype load_error = Fetch_Failed | Http_Error int string | Body_Failed

text \<open>
  \<open>has_btn\<close>, \<open>has_dropdown\<close> and \<open>panel_focusable\<close> describe the host markup and
  never change. \<open>doc_listeners\<close> is a set: \<^verbatim>\<open>addEventListener\<close> with a listener
  that is already registered is ignored by the DOM. \<open>pending\<close> counts the suspended
  continuations of the trigger's click handler (each waits on its own \<^verbatim>\<open>fetch\<close>),
  \<open>requests\<close> the network requests issued, \<open>console\<close> what was logged.
\<close>

record page =
  has_btn :: bool
  has_dropdown :: bool
  panel_focusable :: bool
  init_done :: bool
  bound :: bool
  menu_loaded :: bool
  aria_expanded :: "string option"
  open_class :: bool
  panel :: panel
  active :: target
  doc_listeners :: "listener set"
  pending :: nat
  requests :: nat
  console :: "load_error list"

text \<open>A page as the host leaves it before \<^verbatim>\<open>initHeader\<close> runs.\<close>

definition fresh_page :: "bool \<Rightarrow> bool \<Rightarrow> bool \<Rightarrow> string option \<Rightarrow> panel \<Rightarrow> page" where
  "fresh_page hb hdd pf aria0 p0 =
     \<lparr>has_btn = hb, has_dropdown = hdd, panel_focusable = pf, init_done = False, bound = False,
      menu_loaded = False, aria_expanded = aria0, open_class = False, panel = p0,
      active = T_Outside, doc_listeners = {}, pending = 0, requests = 0, console = []\<rparr>"

text \<open>
  \<^verbatim>\<open>el.focus()\<close> makes \<open>el\<close> the active element. \<^verbatim>\<open>dropdown.focus()\<close> does so only
  when the host made the panel focusable (a \<^verbatim>\<open>tabindex\<close>); otherwise it is a no-op.
\<close>

definition focus :: "target \<Rightarrow> page \<Rightarrow> page" where
  "focus t s = s\<lparr>active := t\<rparr>"

definition focus_panel :: "page \<Rightarrow> page" where
  "focus_panel s = (if panel_focusable s then focus T_Panel s else s)"

text \<open>
  \<^verbatim>\<open>dropdown.innerHTML = ...\<close>: the old content leaves the document, and with it the
  focus if it was inside (the active element falls back to the body).
\<close>

definition set_panel :: "panel \<Rightarrow> page \<Rightarrow> page" where
  "set_panel p s =
     s\<lparr>panel := p,
       active := (case active s of T_Item i \<Rightarrow> T_Outside | t \<Rightarrow> t)\<rparr>"

lemmas dom_query_defs =
  query_focusables_def query_first_focusable_def query_anchors_def has_ul_def item_ids_def
  lookup_elem_def

lemma set_panel_fields [simp]:
  "panel (set_panel p s) = p"
  "open_class (set_panel p s) = open_class s"
  "aria_expanded (set_panel p s) = aria_expanded s"
  "doc_listeners (set_panel p s) = doc_listeners s"
  "menu_loaded (set_panel p s) = menu_loaded s"
  "bound (set_panel p s) = bound s"
  "init_done (set_panel p s) = init_done s"
  "pending (set_panel p s) = pending s"
  "requests (set_panel p s) = requests s"
  "console (set_panel p s) = console s"
  "has_btn (set_panel p s) = has_btn s"
  "has_dropdown (set_panel p s) = has_dropdown s"
  "panel_focusable (set_panel p s) = panel_focusable s"
  by (simp_all add: set_panel_def)

lemma focus_fields [simp]:
  "active (focus t s) = t"
  "panel (focus t s) = panel s"
  "open_class (focus t s) = open_class s"
  "aria_expanded (focus t s) = aria_expanded s"
  "doc_listeners (focus t s) = doc_listeners s"
  "menu_loaded (focus t s) = menu_loaded s"
  "bound (focus t s) = bound s"
  "init_done (focus t s) = init_done s"
  "pending (focus t s) = pending s"
  "requests (focus t s) = requests s"
  "console (focus t s) = console s"
  "has_btn (focus t s) = has_btn s"
  "has_dropdown (focus t s) = has_dropdown s"
  "panel_focusable (focus t s) = panel_focusable s"
  by (simp_all add: focus_def)

lemma focus_panel_fields [simp]:
  "panel (focus_panel s) = panel s"
  "open_class (focus_panel s) = open_class s"
  "aria_expanded (focus_panel s) = aria_expanded s"
  "doc_listeners (focus_panel s) = doc_listeners s"
  "menu_loaded (focus_panel s) = menu_loaded s"
  "bound (focus_panel s) = bound s"
  "init_done (focus_panel s) = init_done s"
  "pending (focus_panel s) = pending s"
  "requests (focus_panel s) = requests s"
  "console (focus_panel s) = console s"
  "has_btn (focus_panel s) = has_btn s"
  "has_dropdown (focus_panel s) = has_dropdown s"
  "panel_focusable (focus_panel s) = panel_focusable s"
  by (simp_all add: focus_panel_def)

lemma query_first_focusable_Some:
  "query_first_focusable p = Some e \<Longrightarrow> e \<in> set (query_focusables p) \<and> focusable e"
  by (auto simp: dom_query_defs find_Some_iff nth_mem)

lemma query_first_focusable_hd:
  "query_first_focusable p = (case query_focusables p of [] \<Rightarrow> None | e # _ \<Rightarrow> Some e)"
  by (simp add: dom_query_defs find_conv_filter)

end
