(* ===== verification/Loader.thy ===== *)
theory Loader
  imports Dom
begin

text \<open>
  \<^verbatim>\<open>loadMenuHtml\<close> (\<^verbatim>\<open>src/header.js\<close>, lines 16--43). The function runs in two
  parts separated by \<^verbatim>\<open>await fetch(...)\<close>: \<open>load_fetch_start\<close> is what runs before
  the suspension (the request is issued), \<open>load_finish\<close> what runs when the network
  answers. The answer is a value of \<open>fetch_result\<close>: a transport failure, or a response
  with its status, status text and the outcome of \<^verbatim>\<open>res.text()\<close> (the body as the
  browser parses it into the panel, or a failure to read it). Every \<^verbatim>\<open>throw\<close> of the
  \<^verbatim>\<open>try\<close> block is an \<open>Inl\<close> of \<open>try_load\<close>, and the \<^verbatim>\<open>catch\<close> block is
  the \<open>Inl\<close> branch of \<open>load_finish\<close>.
\<close>

datatype response = Response (status: int) (status_text: string) (body: "elem list option")

datatype fetch_result = Network_Error | Got response

text \<open>\<^verbatim>\<open>Response.ok\<close>: a status in the range 200--299.\<close>

definition resp_ok :: "response \<Rightarrow> bool" where
  "resp_ok r \<longleftrightarrow> 200 \<le> status r \<and> status r \<le> 299"

text \<open>The statements of the \<^verbatim>\<open>try\<close> block up to the body text (lines 18--21).\<close>

fun try_load :: "fetch_result \<Rightarrow> load_error + elem list" where
  "try_load Network_Error = Inl Fetch_Failed"
| "try_load (Got r) =
     (if \<not> resp_ok r then Inl (Http_Error (status r) (status_text r))
      else case body r of None \<Rightarrow> Inl Body_Failed | Some html \<Rightarrow> Inr html)"

text \<open>Lines 25--30: every link gets \<^verbatim>\<open>role="menuitem"\<close> and an Escape listener.\<close>

definition annotate_link :: "elem \<Rightarrow> elem" where
  "annotate_link e =
     (if is_anchor e then e\<lparr>role := Some ''menuitem'', keydown_esc := True\<rparr> else e)"

definition annotate_links :: "elem list \<Rightarrow> elem list" where
  "annotate_links es = map annotate_link es"

text \<open>Lines 17--19 up to the \<^verbatim>\<open>await\<close>: the request goes out.\<close>

definition load_fetch_start :: "page \<Rightarrow> page" where
  "load_fetch_start s = s\<lparr>requests := Suc (requests s), pending := Suc (pending s)\<rparr>"

text \<open>
  The success path, lines 22--37: the body replaces the panel's content, links are
  annotated, and a content with neither a list nor a link gives way to the
  ``No navigation found.'' placeholder.
\<close>

definition load_success :: "elem list \<Rightarrow> page \<Rightarrow> page" where
  "load_success html s =
     (let s1 = set_panel (Fragment (annotate_links html)) s;
          s2 = (if \<not> has_ul (panel s1) \<and> query_anchors (panel s1) = []
                then set_panel (Note No_Nav) s1 else s1)
      in s2\<lparr>menu_loaded := True\<rparr>)"

text \<open>The \<^verbatim>\<open>catch\<close> block, lines 38--42.\<close>

definition load_failure :: "load_error \<Rightarrow> page \<Rightarrow> page" where
  "load_failure err s =
     (set_panel (Note Load_Failed) (s\<lparr>console := console s @ [err]\<rparr>))\<lparr>menu_loaded := True\<rparr>"

text \<open>Everything after the \<^verbatim>\<open>await\<close>s of \<^verbatim>\<open>loadMenuHtml\<close>.\<close>

definition load_finish :: "fetch_result \<Rightarrow> page \<Rightarrow> page" where
  "load_finish r s =
     (case try_load r of Inl err \<Rightarrow> load_failure err s | Inr html \<Rightarrow> load_success html s)"

lemmas loader_defs = load_fetch_start_def load_success_def load_failure_def load_finish_def

subsection \<open>Frame lemmas\<close>

text \<open>What loading leaves alone: the open state, the listeners, the request count.\<close>

lemma load_finish_frame [simp]:
  "open_class (load_finish r s) = open_class s"
  "aria_expanded (load_finish r s) = aria_expanded s"
  "doc_listeners (load_finish r s) = doc_listeners s"
  "bound (load_finish r s) = bound s"
  "init_done (load_finish r s) = init_done s"
  "pending (load_finish r s) = pending s"
  "requests (load_finish r s) = requests s"
  "has_btn (load_finish r s) = has_btn s"
  "has_dropdown (load_finish r s) = has_dropdown s"
  "panel_focusable (load_finish r s) = panel_focusable s"
  "menu_loaded (load_finish r s) = True"
  by (simp_all add: loader_defs Let_def split: sum.splits)

lemma load_fetch_start_frame [simp]:
  "open_class (load_fetch_start s) = open_class s"
  "aria_expanded (load_fetch_start s) = aria_expanded s"
  "doc_listeners (load_fetch_start s) = doc_listeners s"
  "bound (load_fetch_start s) = bound s"
  "init_done (load_fetch_start s) = init_done s"
  "menu_loaded (load_fetch_start s) = menu_loaded s"
  "pending (load_fetch_start s) = Suc (pending s)"
  "requests (load_fetch_start s) = Suc (requests s)"
  "panel (load_fetch_start s) = panel s"
  "active (load_fetch_start s) = active s"
  "console (load_fetch_start s) = console s"
  "has_btn (load_fetch_start s) = has_btn s"
  "has_dropdown (load_fetch_start s) = has_dropdown s"
  "panel_focusable (load_fetch_start s) = panel_focusable s"
  by (simp_all add: load_fetch_start_def)

subsection \<open>Classification of the network answer\<close>

lemma try_load_Inr_iff:
  "try_load r = Inr html \<longleftrightarrow> (\<exists>st txt. r = Got (Response st txt (Some html)) \<and> 200 \<le> st \<and> st \<le> 299)"
proof (cases r)
  case (Got resp)
  then show ?thesis by (cases resp) (auto simp: resp_ok_def split: option.splits)
qed simp

lemma annotate_link_anchor:
  "is_anchor e \<Longrightarrow> role (annotate_link e) = Some ''menuitem'' \<and> keydown_esc (annotate_link e)"
  by (simp add: annotate_link_def)

lemma annotate_links_anchors:
  "filter is_anchor (annotate_links es) = map annotate_link (filter is_anchor es)"
  by (induction es) (auto simp: annotate_links_def annotate_link_def is_anchor_def)

lemma annotate_links_has_ul:
  "list_ex (\<lambda>e. tag e = Tag_Ul) (annotate_links es) = list_ex (\<lambda>e. tag e = Tag_Ul) es"
  by (induction es) (auto simp: annotate_links_def annotate_link_def)

lemma annotate_link_eid [simp]: "eid (annotate_link e) = eid e"
  by (simp add: annotate_link_def)

lemma annotate_link_focusable [simp]: "focusable (annotate_link e) = focusable e"
  by (simp add: annotate_link_def focusable_def)

text \<open>
  C21. A response whose status lies outside 200--299 is a load failure carrying that
  status and status text, whatever its body; every status inside the range is not.
\<close>

theorem try_load_http_error:
  "try_load (Got (Response st txt b)) = Inl (Http_Error st txt) \<longleftrightarrow> st < 200 \<or> 299 < st"
  by (auto simp: resp_ok_def split: option.splits)

end
