(* ===== verification/Menu.thy ===== *)
theory Menu
  imports Dom
begin

text \<open>
  Opening and closing the panel: \<^verbatim>\<open>openMenu\<close> (lines 45--53), \<^verbatim>\<open>closeMenu\<close>
  (lines 55--61) and \<^verbatim>\<open>outsideClickHandler\<close> (lines 63--65) of \<^verbatim>\<open>src/header.js\<close>.
  Each statement of the source is one update of the page, in the source's order.
\<close>

definition open_menu :: "page \<Rightarrow> page" where
  "open_menu s =
     (let s1 = s\<lparr>aria_expanded := Some ''true''\<rparr>;
          s2 = s1\<lparr>open_class := True\<rparr>;
          s3 = (case query_first_focusable (panel s2) of
                  Some e \<Rightarrow> focus (T_Item (eid e)) s2
                | None \<Rightarrow> focus_panel s2);
          s4 = s3\<lparr>doc_listeners := insert Outside_Click (doc_listeners s3)\<rparr>
      in s4\<lparr>doc_listeners := insert Key_Handler (doc_listeners s4)\<rparr>)"

text \<open>\<^verbatim>\<open>btn.focus()\<close> cannot throw on a button, so the \<^verbatim>\<open>try\<close> around it never catches.\<close>

definition close_menu :: "page \<Rightarrow> page" where
  "close_menu s =
     (let s1 = s\<lparr>aria_expanded := Some ''false''\<rparr>;
          s2 = s1\<lparr>open_class := False\<rparr>;
          s3 = focus T_Btn s2;
          s4 = s3\<lparr>doc_listeners := doc_listeners s3 - {Outside_Click}\<rparr>
      in s4\<lparr>doc_listeners := doc_listeners s4 - {Key_Handler}\<rparr>)"

definition outside_click_handler :: "target \<Rightarrow> page \<Rightarrow> page" where
  "outside_click_handler t s =
     (if \<not> panel_contains (panel s) t \<and> t \<noteq> T_Btn then close_menu s else s)"

lemmas menu_defs = open_menu_def close_menu_def outside_click_handler_def

subsection \<open>What opening and closing do\<close>

lemma open_menu_fields [simp]:
  "aria_expanded (open_menu s) = Some ''true''"
  "open_class (open_menu s) = True"
  "doc_listeners (open_menu s) = doc_listeners s \<union> {Outside_Click, Key_Handler}"
  "panel (open_menu s) = panel s"
  "menu_loaded (open_menu s) = menu_loaded s"
  "bound (open_menu s) = bound s"
  "init_done (open_menu s) = init_done s"
  "pending (open_menu s) = pending s"
  "requests (open_menu s) = requests s"
  "console (open_menu s) = console s"
  "has_btn (open_menu s) = has_btn s"
  "has_dropdown (open_menu s) = has_dropdown s"
  "panel_focusable (open_menu s) = panel_focusable s"
  by (auto simp: open_menu_def Let_def split: option.splits)

text \<open>
  Where opening puts the focus: the first focusable element of the panel; with none, the
  panel itself if the host made it focusable, and otherwise nowhere new.
\<close>

lemma open_menu_active:
  "active (open_menu s) =
     (case query_first_focusable (panel s) of
        Some e \<Rightarrow> T_Item (eid e)
      | None \<Rightarrow> if panel_focusable s then T_Panel else active s)"
  by (simp add: open_menu_def Let_def focus_panel_def split: option.splits)

lemma close_menu_fields [simp]:
  "aria_expanded (close_menu s) = Some ''false''"
  "open_class (close_menu s) = False"
  "active (close_menu s) = T_Btn"
  "doc_listeners (close_menu s) = doc_listeners s - {Outside_Click, Key_Handler}"
  "panel (close_menu s) = panel s"
  "menu_loaded (close_menu s) = menu_loaded s"
  "bound (close_menu s) = bound s"
  "init_done (close_menu s) = init_done s"
  "pending (close_menu s) = pending s"
  "requests (close_menu s) = requests s"
  "console (close_menu s) = console s"
  "has_btn (close_menu s) = has_btn s"
  "has_dropdown (close_menu s) = has_dropdown s"
  "panel_focusable (close_menu s) = panel_focusable s"
  by (auto simp: close_menu_def Let_def)

lemma close_menu_idem: "close_menu (close_menu s) = close_menu s"
  by (simp add: close_menu_def Let_def focus_def Diff_insert2 [symmetric] insert_commute)

lemma outside_click_handler_cases:
  "outside_click_handler t s =
     (if panel_contains (panel s) t \<or> t = T_Btn then s else close_menu s)"
  by (auto simp: outside_click_handler_def)

end
