(* ===== verification/Keynav.thy ===== *)
theory Keynav
  imports Menu
begin

text \<open>
  \<^verbatim>\<open>keyHandler\<close> (\<^verbatim>\<open>src/header.js\<close>, lines 67--83), the listener the open panel
  puts on \<^verbatim>\<open>document\<close>. Escape closes; ArrowDown and ArrowUp move the focus around
  the panel's focusable elements. The source computes the next position with
  JavaScript's \<^verbatim>\<open>%\<close> and reads the array with \<^verbatim>\<open>items[k]\<close>; both are modelled
  with their JavaScript meaning (\<open>js_rem\<close>, \<open>js_at\<close>), so that calling
  \<^verbatim>\<open>.focus()\<close> on \<^verbatim>\<open>undefined\<close> would show up as the error \<open>Type_Error\<close>.
\<close>

datatype js_error = Type_Error

text \<open>\<^verbatim>\<open>Array.from(dropdown.querySelectorAll(...)).filter(Boolean)\<close>, as targets.\<close>

definition arrow_items :: "panel \<Rightarrow> target list" where
  "arrow_items p = map (\<lambda>e. T_Item (eid e)) (query_focusables p)"

definition next_pos :: "int \<Rightarrow> int \<Rightarrow> int option" where
  "next_pos idx n = js_rem (idx + 1) n"

definition prev_pos :: "int \<Rightarrow> int \<Rightarrow> int option" where
  "prev_pos idx n = js_rem (idx - 1 + n) n"

definition key_handler :: "key \<Rightarrow> page \<Rightarrow> js_error + page" where
  "key_handler k s =
     (if k = ''Escape'' then Inr (close_menu s)
      else if k \<in> set [''ArrowDown'', ''ArrowUp''] \<and> open_class s then
        (let items = arrow_items (panel s) in
         if length items = 0 then Inr s
         else
           (let idx = index_of items (active s);
                n = int (length items)
            in if k = ''ArrowDown'' then
                 (case js_at items (next_pos idx n) of
                    None \<Rightarrow> Inl Type_Error
                  | Some nxt \<Rightarrow> Inr (focus nxt s))
               else
                 (case js_at items (prev_pos idx n) of
                    None \<Rightarrow> Inl Type_Error
                  | Some prv \<Rightarrow> Inr (focus prv s))))
      else Inr s)"

subsection \<open>Sample content\<close>

text \<open>
  A panel as the loader leaves it after fetching a list of three links (identities
  1--3, inside a \<^verbatim>\<open><ul>\<close> with identity 0), and the open page showing it with the
  focus on a given target. The witnesses of the development evaluate on these.
\<close>

definition demo_link :: "nat \<Rightarrow> elem" where
  "demo_link i =
     \<lparr>eid = i, tag = Tag_A, tabindex = None, role = None, keydown_esc = False, anchor_anc = None\<rparr>"

definition demo_menu :: "elem list" where
  "demo_menu =
     [\<lparr>eid = 0, tag = Tag_Ul, tabindex = None, role = None, keydown_esc = False, anchor_anc = None\<rparr>,
      demo_link 1, demo_link 2, demo_link 3]"

definition nav_demo :: "target \<Rightarrow> page" where
  "nav_demo t =
     \<lparr>has_btn = True, has_dropdown = True, panel_focusable = False, init_done = True, bound = True,
      menu_loaded = True, aria_expanded = Some ''true'', open_class = True,
      panel = Fragment demo_menu, active = t, doc_listeners = {Outside_Click, Key_Handler},
      pending = 0, requests = 1, console = []\<rparr>"

lemmas demo_defs = demo_link_def demo_menu_def nav_demo_def

subsection \<open>Positions stay inside the array\<close>

lemma next_pos_range:
  assumes "xs \<noteq> []"
  shows "\<exists>r. next_pos (index_of xs t) (int (length xs)) = Some r \<and> 0 \<le> r \<and> r < int (length xs)"
proof -
  have "-1 \<le> index_of xs t" using index_of_bounds [of xs t] by simp
  then have "-1 \<le> index_of xs t + 1" by simp
  moreover from assms have "0 < int (length xs)" by simp
  moreover have "index_of xs t + 1 = -1 \<longrightarrow> int (length xs) = 1"
    using index_of_bounds [of xs t] by simp
  ultimately show ?thesis unfolding next_pos_def by (rule js_rem_index_range)
qed

lemma prev_pos_range:
  assumes "xs \<noteq> []"
  shows "\<exists>r. prev_pos (index_of xs t) (int (length xs)) = Some r \<and> 0 \<le> r \<and> r < int (length xs)"
proof -
  have b: "-1 \<le> index_of xs t" using index_of_bounds [of xs t] by simp
  from assms have n: "1 \<le> int (length xs)" by (cases xs) auto
  with b have "-1 \<le> index_of xs t - 1 + int (length xs)" by simp
  moreover from n have "0 < int (length xs)" by linarith
  moreover from b n have "index_of xs t - 1 + int (length xs) = -1 \<longrightarrow> int (length xs) = 1"
    by simp
  ultimately show ?thesis unfolding prev_pos_def by (rule js_rem_index_range)
qed

text \<open>On these dividends JavaScript's \<^verbatim>\<open>%\<close> agrees with HOL's \<open>mod\<close>.\<close>

lemma next_pos_mod:
  assumes "xs \<noteq> []"
  shows "next_pos (index_of xs t) (int (length xs))
           = Some ((index_of xs t + 1) mod int (length xs))"
proof -
  have "0 \<le> index_of xs t + 1" using index_of_bounds [of xs t] by simp
  moreover from assms have "0 < int (length xs)" by simp
  ultimately show ?thesis by (simp add: next_pos_def js_rem_nonneg)
qed

lemma prev_pos_mod:
  assumes "xs \<noteq> []"
  shows "prev_pos (index_of xs t) (int (length xs))
           = Some ((index_of xs t - 1 + int (length xs)) mod int (length xs))"
proof (cases "0 \<le> index_of xs t - 1 + int (length xs)")
  case True
  moreover from assms have "0 < int (length xs)" by simp
  ultimately show ?thesis by (simp add: prev_pos_def js_rem_nonneg)
next
  case False
  have n: "1 \<le> int (length xs)" using assms by (cases xs) auto
  have b: "-1 \<le> index_of xs t" using index_of_bounds [of xs t] by simp
  from False b n have i: "index_of xs t = -1" and l: "int (length xs) = 1" by linarith+
  show ?thesis unfolding i l by (simp add: prev_pos_def js_rem_minus_one_one)
qed

lemma js_at_mod:
  assumes "xs \<noteq> []"
  shows "js_at xs (Some (a mod int (length xs))) = Some (xs ! nat (a mod int (length xs)))"
proof -
  from assms have "0 < int (length xs)" by simp
  then show ?thesis by (simp add: js_at_Some)
qed

text \<open>The two arrow branches of \<open>key_handler\<close> in closed form.\<close>

lemma key_handler_down:
  assumes "open_class s" and "arrow_items (panel s) \<noteq> []"
  shows "key_handler ''ArrowDown'' s =
    Inr (focus (arrow_items (panel s) ! nat ((index_of (arrow_items (panel s)) (active s) + 1)
                   mod int (length (arrow_items (panel s))))) s)"
  using assms by (simp add: key_handler_def Let_def next_pos_mod js_at_mod)

lemma key_handler_up:
  assumes "open_class s" and "arrow_items (panel s) \<noteq> []"
  shows "key_handler ''ArrowUp'' s =
    Inr (focus (arrow_items (panel s) ! nat ((index_of (arrow_items (panel s)) (active s) - 1
                   + int (length (arrow_items (panel s)))) mod int (length (arrow_items (panel s))))) s)"
  using assms by (simp add: key_handler_def Let_def prev_pos_mod js_at_mod)

lemma distinct_arrow_items:
  "wf_panel p \<Longrightarrow> distinct (arrow_items p)"
  by (auto simp: wf_panel_def arrow_items_def query_focusables_def item_ids_def
      distinct_map inj_on_def intro: distinct_filter)

lemma key_handler_escape: "key_handler ''Escape'' s = Inr (close_menu s)"
  by (simp add: key_handler_def)

lemma key_handler_other:
  "k \<noteq> ''Escape'' \<Longrightarrow> k \<noteq> ''ArrowDown'' \<Longrightarrow> k \<noteq> ''ArrowUp'' \<Longrightarrow> key_handler k s = Inr s"
  by (simp add: key_handler_def)

lemma key_handler_closed_arrow:
  "\<not> open_class s \<Longrightarrow> k \<noteq> ''Escape'' \<Longrightarrow> key_handler k s = Inr s"
  by (simp add: key_handler_def)

lemma key_handler_no_items:
  "k \<noteq> ''Escape'' \<Longrightarrow> arrow_items (panel s) = [] \<Longrightarrow> key_handler k s = Inr s"
  by (simp add: key_handler_def)

subsection \<open>Properties of the keyboard traversal\<close>

text \<open>
  C12. The keyboard handler never throws: whatever the key, the panel and the focused
  element, the position it computes is an index of the array, so \<^verbatim>\<open>items[k]\<close> is
  never \<^verbatim>\<open>undefined\<close> and \<^verbatim>\<open>.focus()\<close> is never called on it.
\<close>

theorem key_handler_never_throws: "\<exists>s'. key_handler k s = Inr s'"
proof -
  consider (esc) "k = ''Escape''"
    | (down) "k = ''ArrowDown''" "open_class s" "arrow_items (panel s) \<noteq> []"
    | (up) "k = ''ArrowUp''" "open_class s" "arrow_items (panel s) \<noteq> []"
    | (other) "k \<noteq> ''Escape''" "k \<noteq> ''ArrowDown''" "k \<noteq> ''ArrowUp''"
    | (closed) "k \<noteq> ''Escape''" "\<not> open_class s"
    | (empty) "k \<noteq> ''Escape''" "arrow_items (panel s) = []"
    by blast
  then show ?thesis
  proof cases
    case down
    then show ?thesis using key_handler_down by blast
  next
    case up
    then show ?thesis using key_handler_up by blast
  qed (auto simp: key_handler_escape key_handler_other key_handler_closed_arrow
         key_handler_no_items)
qed

text \<open>
  C13. ArrowDown on the last focusable element of the open panel wraps around to the first.
\<close>

theorem arrow_down_wraps:
  assumes "wf_panel (panel s)" and "open_class s"
    and "arrow_items (panel s) \<noteq> []"
    and "active s = last (arrow_items (panel s))"
  shows "key_handler ''ArrowDown'' s = Inr (focus (hd (arrow_items (panel s))) s)"
proof -
  let ?xs = "arrow_items (panel s)"
  have "distinct ?xs" using assms(1) by (rule distinct_arrow_items)
  moreover have "length ?xs - 1 < length ?xs" using assms(3) by simp
  ultimately have "index_of ?xs (?xs ! (length ?xs - 1)) = int (length ?xs - 1)"
    by (rule index_of_distinct_nth)
  moreover have "int (length ?xs - 1) + 1 = int (length ?xs)"
    using assms(3) by (rule int_length_pred)
  ultimately have "index_of ?xs (active s) + 1 = int (length ?xs)"
    using assms(3,4) by (simp add: last_conv_nth)
  with assms(2,3) show ?thesis by (simp add: key_handler_down hd_conv_nth)
qed

text \<open>
  C14. ArrowUp on the first focusable element of the open panel wraps around to the last.
\<close>

theorem arrow_down_wraps_witness:
  "wf_panel (panel (nav_demo (T_Item 3))) \<and> open_class (nav_demo (T_Item 3))
   \<and> arrow_items (panel (nav_demo (T_Item 3))) \<noteq> []
   \<and> active (nav_demo (T_Item 3)) = last (arrow_items (panel (nav_demo (T_Item 3))))
   \<and> key_handler ''ArrowDown'' (nav_demo (T_Item 3)) = Inr (focus (T_Item 1) (nav_demo (T_Item 3)))"
proof -
  have h: "wf_panel (panel (nav_demo (T_Item 3)))" "open_class (nav_demo (T_Item 3))"
    "arrow_items (panel (nav_demo (T_Item 3))) \<noteq> []"
    "active (nav_demo (T_Item 3)) = last (arrow_items (panel (nav_demo (T_Item 3))))"
    by (simp_all add: demo_defs wf_panel_def arrow_items_def dom_query_defs focusable_def)
  have "hd (arrow_items (panel (nav_demo (T_Item 3)))) = T_Item 1"
    by (simp add: demo_defs arrow_items_def dom_query_defs focusable_def)
  with h arrow_down_wraps [OF h] show ?thesis by simp
qed

theorem arrow_up_wraps:
  assumes "wf_panel (panel s)" and "open_class s"
    and "arrow_items (panel s) \<noteq> []"
    and "active s = hd (arrow_items (panel s))"
  shows "key_handler ''ArrowUp'' s = Inr (focus (last (arrow_items (panel s))) s)"
proof -
  let ?xs = "arrow_items (panel s)"
  have "distinct ?xs" using assms(1) by (rule distinct_arrow_items)
  moreover have "0 < length ?xs" using assms(3) by simp
  ultimately have "index_of ?xs (?xs ! 0) = 0"
    using index_of_distinct_nth by fastforce
  with assms(3,4) have "index_of ?xs (active s) = 0" by (simp add: hd_conv_nth)
  moreover have "(- 1) mod int (length ?xs) = int (length ?xs) - 1"
    using int_length_ge1 [OF assms(3)] by (intro neg_mod_int) auto
  ultimately show ?thesis
    using assms(2,3) by (simp add: key_handler_up last_conv_nth nat_diff_distrib)
qed

theorem arrow_up_wraps_witness:
  "wf_panel (panel (nav_demo (T_Item 1))) \<and> open_class (nav_demo (T_Item 1))
   \<and> arrow_items (panel (nav_demo (T_Item 1))) \<noteq> []
   \<and> active (nav_demo (T_Item 1)) = hd (arrow_items (panel (nav_demo (T_Item 1))))
   \<and> key_handler ''ArrowUp'' (nav_demo (T_Item 1)) = Inr (focus (T_Item 3) (nav_demo (T_Item 1)))"
proof -
  have h: "wf_panel (panel (nav_demo (T_Item 1)))" "open_class (nav_demo (T_Item 1))"
    "arrow_items (panel (nav_demo (T_Item 1))) \<noteq> []"
    "active (nav_demo (T_Item 1)) = hd (arrow_items (panel (nav_demo (T_Item 1))))"
    by (simp_all add: demo_defs wf_panel_def arrow_items_def dom_query_defs focusable_def)
  have "last (arrow_items (panel (nav_demo (T_Item 1)))) = T_Item 3"
    by (simp add: demo_defs arrow_items_def dom_query_defs focusable_def)
  with h arrow_up_wraps [OF h] show ?thesis by simp
qed

text \<open>
  C15. ArrowUp while the focus is outside the panel's focusable elements (\<^verbatim>\<open>indexOf\<close>
  gives \<open>-1\<close>) focuses the second-to-last element when there are at least two, not the
  last one: \<^verbatim>\<open>(-1 - 1 + n) % n = n - 2\<close>.
\<close>

theorem arrow_up_from_outside:
  assumes "open_class s"
    and "2 \<le> length (arrow_items (panel s))"
    and "active s \<notin> set (arrow_items (panel s))"
  shows "key_handler ''ArrowUp'' s =
           Inr (focus (arrow_items (panel s) ! (length (arrow_items (panel s)) - 2)) s)"
proof -
  let ?xs = "arrow_items (panel s)"
  from assms(2) have ne: "?xs \<noteq> []" by auto
  from assms(3) have "index_of ?xs (active s) = -1" by simp
  moreover from assms(2) have "(- 2) mod int (length ?xs) = int (length ?xs) - 2"
    by (intro neg_mod_int) auto
  ultimately show ?thesis
    using assms(1) ne assms(2) by (simp add: key_handler_up nat_diff_distrib)
qed

theorem arrow_up_from_outside_witness:
  "open_class (nav_demo T_Btn) \<and> 2 \<le> length (arrow_items (panel (nav_demo T_Btn)))
   \<and> active (nav_demo T_Btn) \<notin> set (arrow_items (panel (nav_demo T_Btn)))
   \<and> key_handler ''ArrowUp'' (nav_demo T_Btn) = Inr (focus (T_Item 2) (nav_demo T_Btn))"
proof -
  have h: "open_class (nav_demo T_Btn)" "2 \<le> length (arrow_items (panel (nav_demo T_Btn)))"
    "active (nav_demo T_Btn) \<notin> set (arrow_items (panel (nav_demo T_Btn)))"
    by (simp_all add: demo_defs arrow_items_def dom_query_defs focusable_def)
  have "arrow_items (panel (nav_demo T_Btn)) ! (length (arrow_items (panel (nav_demo T_Btn))) - 2)
        = T_Item 2"
    by (simp add: demo_defs arrow_items_def dom_query_defs focusable_def)
  with h arrow_up_from_outside [OF h] show ?thesis by simp
qed

end
