(* ===== verification/Events.thy ===== *)
theory Events
  imports Loader Keynav
begin

text \<open>
  The widget as a whole: \<^verbatim>\<open>initHeader\<close> (\<^verbatim>\<open>src/header.js\<close>, lines 6--14 and the
  listener registrations of lines 85--113), the listeners on the trigger and the panel,
  and the browser's dispatch of a click or a keydown along the event path (target first,
  then its ancestors up to \<^verbatim>\<open>document\<close>). The listeners on \<^verbatim>\<open>document\<close> are read
  when the event reaches it, after the target's listeners ran: a listener that an
  earlier handler of the same event added there runs, one it removed does not.

  The page evolves by events of the environment (\<open>event\<close>): the host calling
  \<^verbatim>\<open>initHeader()\<close>, the user clicking, pressing a key on the focused element or moving
  the focus, the network answering one of the pending requests, a window resize.
  \<open>step\<close> is the deterministic effect of one event; \<open>reachable\<close> are the pages that
  some sequence of events produces from a freshly loaded page.
\<close>

subsection \<open>initHeader\<close>

text \<open>
  The first call sets the global flag; if both elements exist it creates
  \<^verbatim>\<open>menuLoaded = false\<close> and registers the listeners of lines 85--113
  (\<open>bound\<close>). A missing element is a silent return, after the flag is set.
\<close>

definition init_header :: "page \<Rightarrow> page" where
  "init_header s =
     (if init_done s then s
      else
        (let s1 = s\<lparr>init_done := True\<rparr>
         in if \<not> has_btn s1 \<or> \<not> has_dropdown s1 then s1
            else s1\<lparr>menu_loaded := False, bound := True\<rparr>))"

subsection \<open>Listeners on the trigger and the panel\<close>

text \<open>
  The trigger's click listener, lines 85--94, up to its \<^verbatim>\<open>await\<close>: when the menu is
  not loaded it shows the loading placeholder, issues the request and suspends.
\<close>

definition btn_click_handler :: "page \<Rightarrow> page" where
  "btn_click_handler s =
     (let opn = (aria_expanded s = Some ''true'')
      in if opn then close_menu s
         else if \<not> menu_loaded s then load_fetch_start (set_panel (Note Loading) s)
         else open_menu s)"

text \<open>
  The rest of that listener once its request is answered: the remainder of
  \<^verbatim>\<open>loadMenuHtml\<close>, then \<^verbatim>\<open>openMenu()\<close> whatever the outcome (line 93).
\<close>

definition resume_click :: "fetch_result \<Rightarrow> page \<Rightarrow> page" where
  "resume_click r s = open_menu (load_finish r s)"

definition fetch_done :: "fetch_result \<Rightarrow> page \<Rightarrow> page" where
  "fetch_done r s =
     (if pending s = 0 then s else resume_click r (s\<lparr>pending := pending s - 1\<rparr>))"

text \<open>The panel's click listener, lines 107--110.\<close>

definition dropdown_click_handler :: "target \<Rightarrow> page \<Rightarrow> page" where
  "dropdown_click_handler t s = (if closest_anchor (panel s) t \<noteq> None then close_menu s else s)"

text \<open>
  A click: the listener on the trigger or on the panel (whichever the target lies in),
  then \<^verbatim>\<open>outsideClickHandler\<close> if it is registered on \<^verbatim>\<open>document\<close> by then.
\<close>

definition dispatch_click :: "target \<Rightarrow> page \<Rightarrow> page" where
  "dispatch_click t s =
     (let s1 = (if bound s \<and> t = T_Btn then btn_click_handler s
                else if bound s \<and> panel_contains (panel s) t then dropdown_click_handler t s
                else s)
      in if Outside_Click \<in> doc_listeners s1 then outside_click_handler t s1 else s1)"

text \<open>
  The trigger's keydown listener, lines 97--104: ArrowDown, Enter and Space open a
  closed panel with a synthetic click (\<^verbatim>\<open>btn.click()\<close> dispatches a whole click
  event) and then focus the first focusable element.
\<close>

definition btn_keydown_handler :: "key \<Rightarrow> page \<Rightarrow> page" where
  "btn_keydown_handler k s =
     (if k = ''ArrowDown'' \<or> k = ''Enter'' \<or> k = '' '' then
        (let s1 = (if \<not> open_class s then dispatch_click T_Btn s else s)
         in case query_first_focusable (panel s1) of
              Some e \<Rightarrow> focus (T_Item (eid e)) s1
            | None \<Rightarrow> s1)
      else s)"

text \<open>
  The Escape listener the loader put on every link (lines 27--29) lies on the path of a
  keydown whose target is the link or inside it.
\<close>

definition esc_on_path :: "panel \<Rightarrow> nat \<Rightarrow> bool" where
  "esc_on_path p i =
     (case lookup_elem p i of
        None \<Rightarrow> False
      | Some e \<Rightarrow>
          keydown_esc e \<or>
          (case anchor_anc e of
             None \<Rightarrow> False
           | Some a \<Rightarrow> (case lookup_elem p a of None \<Rightarrow> False | Some ea \<Rightarrow> keydown_esc ea)))"

text \<open>
  A keydown goes to the focused element. An exception of \<^verbatim>\<open>keyHandler\<close> would be
  reported by the browser and leave the page as it was when it was thrown.
\<close>

definition dispatch_key :: "key \<Rightarrow> page \<Rightarrow> page" where
  "dispatch_key k s =
     (let s1 = (case active s of
                  T_Btn \<Rightarrow> if bound s then btn_keydown_handler k s else s
                | T_Item i \<Rightarrow> if k = ''Escape'' \<and> esc_on_path (panel s) i then close_menu s else s
                | _ \<Rightarrow> s)
      in if Key_Handler \<in> doc_listeners s1
         then (case key_handler k s1 of Inl _ \<Rightarrow> s1 | Inr s2 \<Rightarrow> s2)
         else s1)"

subsection \<open>The keydown's default action\<close>

text \<open>
  A keydown whose listeners did not call \<^verbatim>\<open>preventDefault()\<close> runs the browser's
  default action on its target once dispatch is over: Enter on a link or a button, and
  Space on a button, activate it, which dispatches a click on it. The trigger is a
  \<^verbatim>\<open><button>\<close>. Its keydown listener calls \<^verbatim>\<open>e.preventDefault()\<close> for ArrowDown,
  Enter and Space (lines 98--99); \<^verbatim>\<open>keyHandler\<close> calls it for the arrow keys only
  (line 73), which activate nothing. Where a link's activation then navigates away from
  the page, the model keeps the click that precedes the navigation.
\<close>

definition key_activates :: "key \<Rightarrow> page \<Rightarrow> bool" where
  "key_activates k s =
     (case active s of
        T_Btn \<Rightarrow> k = ''Enter'' \<or> k = '' ''
      | T_Item i \<Rightarrow>
          (case lookup_elem (panel s) i of
             None \<Rightarrow> False
           | Some e \<Rightarrow> (k = ''Enter'' \<and> (tag e = Tag_A \<or> tag e = Tag_Button))
                       \<or> (k = '' '' \<and> tag e = Tag_Button))
      | _ \<Rightarrow> False)"

definition btn_prevents :: "key \<Rightarrow> page \<Rightarrow> bool" where
  "btn_prevents k s \<longleftrightarrow>
     active s = T_Btn \<and> bound s \<and> (k = ''ArrowDown'' \<or> k = ''Enter'' \<or> k = '' '')"

definition key_press :: "key \<Rightarrow> page \<Rightarrow> page" where
  "key_press k s =
     (let s' = dispatch_key k s
      in if key_activates k s \<and> \<not> btn_prevents k s then dispatch_click (active s) s' else s')"

subsection \<open>The environment\<close>

text \<open>The user moves the focus (Tab, a pointer) to something that can take it.\<close>

fun can_focus :: "page \<Rightarrow> target \<Rightarrow> bool" where
  "can_focus s T_Btn = has_btn s"
| "can_focus s T_Panel = panel_focusable s"
| "can_focus s (T_Item i) = (case lookup_elem (panel s) i of None \<Rightarrow> False | Some e \<Rightarrow> focusable e)"
| "can_focus s T_Outside = True"

definition focus_move :: "target \<Rightarrow> page \<Rightarrow> page" where
  "focus_move t s = (if can_focus s t then focus t s else s)"

datatype event =
    Init
  | Click target
  | Key key
  | Fetch_Done fetch_result
  | Focus_Move target
  | Resize

text \<open>The resize listener of line 113 is empty.\<close>

fun step :: "page \<Rightarrow> event \<Rightarrow> page" where
  "step s Init = init_header s"
| "step s (Click t) = dispatch_click t s"
| "step s (Key k) = key_press k s"
| "step s (Fetch_Done r) = fetch_done r s"
| "step s (Focus_Move t) = focus_move t s"
| "step s Resize = s"

fun run :: "page \<Rightarrow> event list \<Rightarrow> page" where
  "run s [] = s"
| "run s (e # es) = run (step s e) es"

text \<open>
  The host page may start with any \<^verbatim>\<open>aria-expanded\<close> on the trigger except
  \<^verbatim>\<open>"true"\<close>: the panel starts closed (it has no \<^verbatim>\<open>open\<close> class).
\<close>

inductive reachable :: "page \<Rightarrow> bool" where
  start: "aria0 \<noteq> Some ''true'' \<Longrightarrow> reachable (fresh_page hb hdd pf aria0 p0)"
| step: "reachable s \<Longrightarrow> reachable (step s e)"

lemmas handler_defs = init_header_def btn_click_handler_def resume_click_def fetch_done_def
  dropdown_click_handler_def dispatch_click_def btn_keydown_handler_def dispatch_key_def
  focus_move_def key_press_def key_activates_def btn_prevents_def

subsection \<open>Runs\<close>

lemma run_append: "run s (es @ fs) = run (run s es) fs"
  by (induction es arbitrary: s) auto

lemma reachable_run: "reachable s \<Longrightarrow> reachable (run s es)"
  by (induction es arbitrary: s) (auto intro: reachable.step)

lemma key_press_no_default: "\<not> key_activates k s \<Longrightarrow> key_press k s = dispatch_key k s"
  by (simp add: key_press_def Let_def)

lemma key_press_default:
  "key_activates k s \<Longrightarrow> \<not> btn_prevents k s
   \<Longrightarrow> key_press k s = dispatch_click (active s) (dispatch_key k s)"
  by (simp add: key_press_def Let_def)

lemma key_activates_keys: "key_activates k s \<Longrightarrow> k = ''Enter'' \<or> k = '' ''"
  by (auto simp: key_activates_def split: target.splits option.splits)

lemma key_press_other [simp]:
  "k \<noteq> ''Enter'' \<Longrightarrow> k \<noteq> '' '' \<Longrightarrow> key_press k s = dispatch_key k s"
  using key_activates_keys by (blast intro: key_press_no_default)

lemma key_press_btn: "active s = T_Btn \<Longrightarrow> bound s \<Longrightarrow> key_press k s = dispatch_key k s"
  by (auto simp: key_press_def btn_prevents_def key_activates_def Let_def)

text \<open>
  Enter and Space reach no listener that acts on them unless the focus is on the bound
  trigger; so when their default action runs, it runs on the page as the key found it.
\<close>

lemma key_press_activation:
  assumes "key_activates k s" and "\<not> btn_prevents k s"
  shows "key_press k s = dispatch_click (active s) s"
proof -
  have k: "k = ''Enter'' \<or> k = '' ''" using assms(1) by (rule key_activates_keys)
  then have kh: "key_handler k s = Inr s" by (auto intro: key_handler_other)
  have "dispatch_key k s = s"
    using assms(2) k kh by (cases "active s") (auto simp: dispatch_key_def btn_prevents_def)
  with assms show ?thesis by (simp add: key_press_default)
qed

lemma key_press_cases:
  "key_press k s = dispatch_key k s
   \<or> (key_activates k s \<and> key_press k s = dispatch_click (active s) s)"
  using key_press_activation [of k s] key_press_no_default [of k s]
  by (cases "key_activates k s \<and> \<not> btn_prevents k s") (auto simp: key_press_def Let_def)

text \<open>What holds after the dispatch and after a click on the focused element holds after the key.\<close>

lemma key_press_induct:
  "P (dispatch_key k s) \<Longrightarrow> P (dispatch_click (active s) s) \<Longrightarrow> P (key_press k s)"
  using key_press_cases [of k s] by auto

lemma init_header_init_done [simp]: "init_done (init_header s)"
  by (simp add: init_header_def Let_def)

lemma init_header_idem: "init_header (init_header s) = init_header s"
  by (subst init_header_def) simp

end
