(* ===== verification/Invariants.thy ===== *)
theory Invariants
  imports Events
begin

text \<open>
  The invariant every reachable page satisfies, and one preservation lemma per handler
  of \<open>Events\<close>, built from one lemma per primitive operation (\<open>open_menu\<close>,
  \<open>close_menu\<close>, \<open>focus\<close>, \<open>set_panel\<close>, the two halves of the loader). The
  invariant says that the trigger's \<^verbatim>\<open>aria-expanded\<close>, the panel's \<^verbatim>\<open>open\<close> class and
  the two listeners on \<^verbatim>\<open>document\<close> agree, and what holds before and after
  \<^verbatim>\<open>initHeader\<close> bound the listeners.
\<close>

definition sync :: "page \<Rightarrow> bool" where
  "sync s \<longleftrightarrow>
     (aria_expanded s = Some ''true'') = open_class s
     \<and> doc_listeners s = (if open_class s then {Outside_Click, Key_Handler} else {})"

definition widget_inv :: "page \<Rightarrow> bool" where
  "widget_inv s \<longleftrightarrow>
     sync s
     \<and> (\<not> bound s \<longrightarrow> requests s = 0 \<and> pending s = 0 \<and> \<not> open_class s \<and> \<not> menu_loaded s)
     \<and> (bound s \<longrightarrow> init_done s \<and> has_btn s \<and> has_dropdown s)"

text \<open>
  \<open>keeps_loaded s s'\<close>: going from \<open>s\<close> to \<open>s'\<close> neither resets a set loaded flag
  nor issues a request once the flag is set.
\<close>

definition keeps_loaded :: "page \<Rightarrow> page \<Rightarrow> bool" where
  "keeps_loaded s s' \<longleftrightarrow> (menu_loaded s \<longrightarrow> menu_loaded s' \<and> requests s' = requests s)"

named_theorems loaded_rules "operations that keep the loaded flag and the request count"

named_theorems inv_rules "preservation of the widget invariant"

lemma listener_UNIV: "{Outside_Click, Key_Handler} = UNIV"
  using listener.exhaust by auto

lemma widget_inv_sync: "widget_inv s \<Longrightarrow> sync s"
  by (simp add: widget_inv_def)

lemma widget_inv_unbound:
  "widget_inv s \<Longrightarrow> \<not> bound s \<Longrightarrow> requests s = 0 \<and> pending s = 0 \<and> \<not> open_class s \<and> \<not> menu_loaded s"
  by (simp add: widget_inv_def)

lemma widget_inv_open_bound: "widget_inv s \<Longrightarrow> open_class s \<Longrightarrow> bound s"
  by (auto simp: widget_inv_def)

lemma widget_inv_listener_open:
  "widget_inv s \<Longrightarrow> l \<in> doc_listeners s \<Longrightarrow> open_class s"
  by (auto simp: widget_inv_def sync_def split: if_splits)

lemma widget_inv_aria: "widget_inv s \<Longrightarrow> (aria_expanded s = Some ''true'') = open_class s"
  by (simp add: widget_inv_def sync_def)

subsection \<open>Primitive operations\<close>

lemma inv_close_menu [inv_rules]: "widget_inv s \<Longrightarrow> widget_inv (close_menu s)"
  by (auto simp: widget_inv_def sync_def)

lemma inv_open_menu [inv_rules]: "widget_inv s \<Longrightarrow> bound s \<Longrightarrow> widget_inv (open_menu s)"
  by (auto simp: widget_inv_def sync_def listener_UNIV)

lemma inv_focus [inv_rules]: "widget_inv s \<Longrightarrow> widget_inv (focus t s)"
  by (simp add: widget_inv_def sync_def)

lemma inv_set_panel [inv_rules]: "widget_inv s \<Longrightarrow> widget_inv (set_panel p s)"
  by (simp add: widget_inv_def sync_def)

lemma inv_load_fetch_start [inv_rules]:
  "widget_inv s \<Longrightarrow> bound s \<Longrightarrow> widget_inv (load_fetch_start s)"
  by (simp add: widget_inv_def sync_def)

lemma inv_load_finish [inv_rules]:
  "widget_inv s \<Longrightarrow> bound s \<Longrightarrow> widget_inv (load_finish r s)"
  by (simp add: widget_inv_def sync_def)

subsection \<open>Handlers\<close>

lemma key_handler_results:
  "key_handler k s = Inr s' \<Longrightarrow> s' = close_menu s \<or> s' = s \<or> (\<exists>t. s' = focus t s)"
  by (auto simp: key_handler_def Let_def split: if_splits option.splits)

lemma inv_btn_click [inv_rules]:
  "widget_inv s \<Longrightarrow> bound s \<Longrightarrow> widget_inv (btn_click_handler s)"
  by (simp add: btn_click_handler_def Let_def inv_rules)

lemma inv_dispatch_click [inv_rules]: "widget_inv s \<Longrightarrow> widget_inv (dispatch_click t s)"
proof -
  assume inv: "widget_inv s"
  define s1 where "s1 = (if bound s \<and> t = T_Btn then btn_click_handler s
                else if bound s \<and> panel_contains (panel s) t then dropdown_click_handler t s
                else s)"
  have "widget_inv s1"
    using inv by (simp add: s1_def dropdown_click_handler_def inv_rules)
  then have "widget_inv (outside_click_handler t s1)"
    by (simp add: outside_click_handler_def inv_rules)
  with \<open>widget_inv s1\<close> show ?thesis
    by (simp add: dispatch_click_def s1_def [symmetric])
qed

lemma inv_btn_keydown [inv_rules]:
  "widget_inv s \<Longrightarrow> widget_inv (btn_keydown_handler k s)"
  by (simp add: btn_keydown_handler_def Let_def inv_rules split: option.splits)

lemma inv_key_handler_result:
  "widget_inv s \<Longrightarrow> widget_inv (case key_handler k s of Inl _ \<Rightarrow> s | Inr s2 \<Rightarrow> s2)"
  by (auto simp: inv_rules split: sum.splits dest: key_handler_results)

lemma inv_dispatch_key [inv_rules]: "widget_inv s \<Longrightarrow> widget_inv (dispatch_key k s)"
proof -
  assume inv: "widget_inv s"
  define s1 where "s1 = (case active s of
                  T_Btn \<Rightarrow> if bound s then btn_keydown_handler k s else s
                | T_Item i \<Rightarrow> if k = ''Escape'' \<and> esc_on_path (panel s) i then close_menu s else s
                | _ \<Rightarrow> s)"
  have "widget_inv s1"
    using inv by (simp add: s1_def inv_rules split: target.splits)
  then show ?thesis
    by (simp add: dispatch_key_def s1_def [symmetric] inv_key_handler_result)
qed

lemma inv_key_press [inv_rules]: "widget_inv s \<Longrightarrow> widget_inv (key_press k s)"
  by (rule key_press_induct) (simp_all add: inv_rules)

lemma inv_fetch_done [inv_rules]: "widget_inv s \<Longrightarrow> widget_inv (fetch_done r s)"
proof (cases "pending s = 0")
  case False
  assume inv: "widget_inv s"
  have b: "bound s" using widget_inv_unbound [OF inv] False by blast
  with inv have "widget_inv (s\<lparr>pending := pending s - 1\<rparr>)"
    by (simp add: widget_inv_def sync_def)
  with b show ?thesis
    using False by (simp add: fetch_done_def resume_click_def inv_rules)
qed (simp add: fetch_done_def)

lemma inv_init_header [inv_rules]: "widget_inv s \<Longrightarrow> widget_inv (init_header s)"
  by (auto simp: init_header_def widget_inv_def sync_def Let_def)

lemma inv_focus_move [inv_rules]: "widget_inv s \<Longrightarrow> widget_inv (focus_move t s)"
  by (simp add: focus_move_def inv_rules)

lemma inv_step: "widget_inv s \<Longrightarrow> widget_inv (step s e)"
  by (cases e) (simp_all add: inv_rules)

lemma inv_fresh_page:
  "aria0 \<noteq> Some ''true'' \<Longrightarrow> widget_inv (fresh_page hb hdd pf aria0 p0)"
  by (simp add: widget_inv_def sync_def fresh_page_def)

lemma reachable_widget_inv: "reachable s \<Longrightarrow> widget_inv s"
proof (induction rule: reachable.induct)
  case (start aria0 hb hdd pf p0)
  then show ?case by (rule inv_fresh_page)
next
  case (step s e)
  then show ?case by (simp add: inv_step)
qed

lemma inv_run: "widget_inv s \<Longrightarrow> widget_inv (run s es)"
  by (induction es arbitrary: s) (simp_all add: inv_step)

subsection \<open>The handlers on an invariant page\<close>

text \<open>What one click or key does, by the state of the panel.\<close>

lemma closed_no_listeners: "widget_inv s \<Longrightarrow> \<not> open_class s \<Longrightarrow> doc_listeners s = {}"
  by (simp add: widget_inv_def sync_def)

lemma open_listeners:
  "widget_inv s \<Longrightarrow> open_class s \<Longrightarrow> Outside_Click \<in> doc_listeners s \<and> Key_Handler \<in> doc_listeners s"
  by (simp add: widget_inv_def sync_def)

lemma dispatch_click_btn_open:
  assumes "widget_inv s" and "open_class s"
  shows "dispatch_click T_Btn s = close_menu s"
proof -
  from assms have "bound s" and "aria_expanded s = Some ''true''"
    by (simp_all add: widget_inv_open_bound widget_inv_aria)
  then show ?thesis by (simp add: dispatch_click_def btn_click_handler_def outside_click_handler_def)
qed

lemma dispatch_click_btn_loaded:
  assumes "widget_inv s" and "\<not> open_class s" and "bound s" and "menu_loaded s"
  shows "dispatch_click T_Btn s = open_menu s"
proof -
  from assms have "aria_expanded s \<noteq> Some ''true''" using widget_inv_aria by blast
  with assms(3,4) show ?thesis
    by (simp add: dispatch_click_def btn_click_handler_def outside_click_handler_def)
qed

lemma dispatch_click_btn_unloaded:
  assumes "widget_inv s" and "\<not> open_class s" and "bound s" and "\<not> menu_loaded s"
  shows "dispatch_click T_Btn s = load_fetch_start (set_panel (Note Loading) s)"
proof -
  from assms have "aria_expanded s \<noteq> Some ''true''" using widget_inv_aria by blast
  moreover from assms have "doc_listeners s = {}" by (simp add: closed_no_listeners)
  ultimately show ?thesis
    using assms(3,4) by (simp add: dispatch_click_def btn_click_handler_def)
qed

lemma dispatch_click_outside_open:
  assumes "widget_inv s" and "open_class s"
  shows "dispatch_click T_Outside s = close_menu s"
  using open_listeners [OF assms]
  by (simp add: dispatch_click_def outside_click_handler_def)

lemma closest_anchor_contains: "closest_anchor p t = Some a \<Longrightarrow> panel_contains p t"
  by (cases t)
     (auto simp: lookup_elem_def item_ids_def find_Some_iff nth_mem split: option.splits if_splits)

lemma dispatch_click_link_open:
  assumes "widget_inv s" and "open_class s" and "closest_anchor (panel s) t = Some a"
  shows "dispatch_click t s = close_menu s"
proof -
  from assms(3) have c: "panel_contains (panel s) t" by (rule closest_anchor_contains)
  from assms(3) have "t \<noteq> T_Btn" by auto
  with assms c widget_inv_open_bound show ?thesis
    by (simp add: dispatch_click_def dropdown_click_handler_def)
qed

lemma dispatch_key_escape_open:
  assumes "widget_inv s" and "open_class s"
  shows "dispatch_key ''Escape'' s = close_menu s"
proof -
  have kh: "Key_Handler \<in> doc_listeners s" using open_listeners [OF assms] by simp
  have b: "bound s" using assms by (rule widget_inv_open_bound)
  show ?thesis
  proof (cases "active s")
    case T_Btn
    with kh b show ?thesis
      by (simp add: dispatch_key_def btn_keydown_handler_def key_handler_escape)
  next
    case (T_Item i)
    with kh show ?thesis
      by (simp add: dispatch_key_def key_handler_escape)
  qed (simp_all add: dispatch_key_def kh key_handler_escape)
qed

lemma fetch_done_pending:
  "0 < pending s \<Longrightarrow> fetch_done r s = open_menu (load_finish r (s\<lparr>pending := pending s - 1\<rparr>))"
  by (simp add: fetch_done_def resume_click_def)

subsection \<open>The request count\<close>

text \<open>
  Once the menu is loaded, no handler resets the flag or issues a request: the only
  request is the one of the trigger's click listener, behind \<^verbatim>\<open>if (!menuLoaded)\<close>.
\<close>


lemma keeps_loaded_refl [loaded_rules]: "keeps_loaded s s"
  by (simp add: keeps_loaded_def)

lemma keeps_loaded_trans: "keeps_loaded s s1 \<Longrightarrow> keeps_loaded s1 s2 \<Longrightarrow> keeps_loaded s s2"
  by (simp add: keeps_loaded_def)

lemma keeps_loaded_close [loaded_rules]: "keeps_loaded s (close_menu s)"
  and keeps_loaded_open [loaded_rules]: "keeps_loaded s (open_menu s)"
  and keeps_loaded_focus [loaded_rules]: "keeps_loaded s (focus t s)"
  and keeps_loaded_finish [loaded_rules]: "keeps_loaded s (load_finish r s)"
  by (simp_all add: keeps_loaded_def)

lemma keeps_loaded_click [loaded_rules]: "keeps_loaded s (dispatch_click t s)"
proof -
  define s1 where "s1 = (if bound s \<and> t = T_Btn then btn_click_handler s
                else if bound s \<and> panel_contains (panel s) t then dropdown_click_handler t s
                else s)"
  have "keeps_loaded s s1"
    by (auto simp: s1_def btn_click_handler_def dropdown_click_handler_def Let_def
        keeps_loaded_def)
  moreover have "keeps_loaded s1 (outside_click_handler t s1)"
    by (simp add: outside_click_handler_def loaded_rules)
  ultimately show ?thesis
    by (auto simp: dispatch_click_def s1_def [symmetric] intro: keeps_loaded_trans)
qed

lemma keeps_loaded_key_result [loaded_rules]:
  "keeps_loaded s (case key_handler k s of Inl _ \<Rightarrow> s | Inr s2 \<Rightarrow> s2)"
  by (auto simp: loaded_rules split: sum.splits dest: key_handler_results)

lemma keeps_loaded_btn_keydown [loaded_rules]: "keeps_loaded s (btn_keydown_handler k s)"
proof -
  define s1 where "s1 = (if \<not> open_class s then dispatch_click T_Btn s else s)"
  have "keeps_loaded s s1" by (simp add: s1_def loaded_rules)
  moreover have "keeps_loaded s1 (case query_first_focusable (panel s1) of
                     Some e \<Rightarrow> focus (T_Item (eid e)) s1 | None \<Rightarrow> s1)"
    by (simp add: loaded_rules split: option.splits)
  ultimately show ?thesis
    by (auto simp: btn_keydown_handler_def Let_def s1_def [symmetric] loaded_rules
        intro: keeps_loaded_trans)
qed

lemma keeps_loaded_key [loaded_rules]: "keeps_loaded s (dispatch_key k s)"
proof -
  define s1 where "s1 = (case active s of
                  T_Btn \<Rightarrow> if bound s then btn_keydown_handler k s else s
                | T_Item i \<Rightarrow> if k = ''Escape'' \<and> esc_on_path (panel s) i then close_menu s else s
                | _ \<Rightarrow> s)"
  have "keeps_loaded s s1"
    by (simp add: s1_def loaded_rules split: target.splits)
  then show ?thesis
    by (auto simp: dispatch_key_def s1_def [symmetric] loaded_rules intro: keeps_loaded_trans)
qed

lemma keeps_loaded_key_press [loaded_rules]: "keeps_loaded s (key_press k s)"
  by (rule key_press_induct) (simp_all add: loaded_rules)

lemma keeps_loaded_step:
  assumes "widget_inv s"
  shows "keeps_loaded s (step s e)"
proof (cases e)
  case Init
  have "menu_loaded s \<Longrightarrow> init_done s"
    using assms by (auto simp: widget_inv_def)
  with Init show ?thesis by (auto simp: init_header_def keeps_loaded_def)
next
  case (Fetch_Done r)
  then show ?thesis by (simp add: fetch_done_def resume_click_def keeps_loaded_def)
qed (simp_all add: loaded_rules focus_move_def)

lemma keeps_loaded_run: "widget_inv s \<Longrightarrow> keeps_loaded s (run s es)"
proof (induction es arbitrary: s)
  case Nil
  then show ?case by (simp add: keeps_loaded_refl)
next
  case (Cons e es)
  from Cons.prems have "keeps_loaded s (step s e)" by (rule keeps_loaded_step)
  moreover from Cons.prems have "keeps_loaded (step s e) (run (step s e) es)"
    by (intro Cons.IH inv_step)
  ultimately show ?case by (auto intro: keeps_loaded_trans)
qed

end
