(* ===== verification/Abstract.thy ===== *)
theory Abstract
  imports Invariants
begin

text \<open>
  The specification's state machine of the menu (section 4.1 of the specification), as an
  abstract model the page refines. Its state is whether the panel is open, whether its
  content is loaded, and how many loads are in flight. Its transitions:
  \<^item> \<open>close\<close>: any state may close (closing a closed menu changes nothing);
  \<^item> \<open>open_loaded\<close>: an activation opens a menu whose content is loaded;
  \<^item> \<open>start_load\<close>: an activation of a closed, unloaded menu starts a load;
  \<^item> \<open>complete\<close>: a load in flight completes, the menu is then loaded and open,
    whatever the outcome;
  \<^item> \<open>stutter\<close>: events that change none of the three.
  \<open>abs_menu\<close> reads the abstract state off a page; \<open>menu_sim\<close> shows that every
  step of the page is one abstract transition.
\<close>

record menu_spec =
  is_open :: bool
  loaded :: bool
  in_flight :: nat

inductive spec_step :: "menu_spec \<Rightarrow> menu_spec \<Rightarrow> bool" where
  stutter: "spec_step a a"
| close: "spec_step a (a\<lparr>is_open := False\<rparr>)"
| open_loaded: "loaded a \<Longrightarrow> spec_step a (a\<lparr>is_open := True\<rparr>)"
| start_load: "\<not> is_open a \<Longrightarrow> \<not> loaded a \<Longrightarrow> spec_step a (a\<lparr>in_flight := Suc (in_flight a)\<rparr>)"
| complete: "0 < in_flight a \<Longrightarrow>
    spec_step a \<lparr>is_open = True, loaded = True, in_flight = in_flight a - 1\<rparr>"

inductive spec_reach :: "menu_spec \<Rightarrow> bool" where
  init: "spec_reach \<lparr>is_open = False, loaded = False, in_flight = 0\<rparr>"
| step: "spec_reach a \<Longrightarrow> spec_step a b \<Longrightarrow> spec_reach b"

definition abs_menu :: "page \<Rightarrow> menu_spec" where
  "abs_menu s = \<lparr>is_open = open_class s, loaded = menu_loaded s, in_flight = pending s\<rparr>"

text \<open>Changes that leave the abstract state alone or only close the menu.\<close>

definition same_or_closed :: "page \<Rightarrow> page \<Rightarrow> bool" where
  "same_or_closed s s' \<longleftrightarrow>
     abs_menu s' = abs_menu s \<or> abs_menu s' = (abs_menu s)\<lparr>is_open := False\<rparr>"

inductive_cases spec_step_cases: "spec_step a b"

subsection \<open>The abstraction of each operation\<close>

lemma abs_close [simp]: "abs_menu (close_menu s) = (abs_menu s)\<lparr>is_open := False\<rparr>"
  and abs_open [simp]: "abs_menu (open_menu s) = (abs_menu s)\<lparr>is_open := True\<rparr>"
  and abs_focus [simp]: "abs_menu (focus t s) = abs_menu s"
  and abs_set_panel [simp]: "abs_menu (set_panel p s) = abs_menu s"
  and abs_fetch_start [simp]:
    "abs_menu (load_fetch_start s) = (abs_menu s)\<lparr>in_flight := Suc (pending s)\<rparr>"
  by (simp_all add: abs_menu_def)

lemma spec_step_close_page: "spec_step (abs_menu s) (abs_menu (close_menu s))"
  by (simp add: spec_step.close)

lemma spec_step_focus_page: "spec_step (abs_menu s) (abs_menu (focus t s))"
  by (simp add: spec_step.stutter)

text \<open>A step followed by changes that do not touch the abstract state is one step.\<close>

lemma spec_step_then_focus:
  "spec_step (abs_menu s) (abs_menu s1) \<Longrightarrow> spec_step (abs_menu s) (abs_menu (focus t s1))"
  by simp

subsection \<open>Simulation, handler by handler\<close>

lemma key_handler_results_not_escape:
  "key_handler k s = Inr s' \<Longrightarrow> k \<noteq> ''Escape'' \<Longrightarrow> s' = s \<or> (\<exists>t. s' = focus t s)"
  by (auto simp: key_handler_def Let_def split: if_splits option.splits)

lemma sim_btn_click:
  assumes "widget_inv s" and "bound s"
  shows "spec_step (abs_menu s) (abs_menu (btn_click_handler s))"
proof -
  have a: "(aria_expanded s = Some ''true'') = open_class s" using assms(1) by (rule widget_inv_aria)
  show ?thesis
  proof (cases "open_class s")
    case True
    with a show ?thesis by (simp add: btn_click_handler_def spec_step.close)
  next
    case False
    show ?thesis
    proof (cases "menu_loaded s")
      case True
      then have "spec_step (abs_menu s) ((abs_menu s)\<lparr>is_open := True\<rparr>)"
        by (intro spec_step.open_loaded) (simp add: abs_menu_def)
      with True False a show ?thesis by (simp add: btn_click_handler_def)
    next
      case nl: False
      have "spec_step (abs_menu s) ((abs_menu s)\<lparr>in_flight := Suc (in_flight (abs_menu s))\<rparr>)"
        using False nl by (intro spec_step.start_load) (simp_all add: abs_menu_def)
      with False nl a show ?thesis by (simp add: btn_click_handler_def abs_menu_def)
    qed
  qed
qed

lemma sim_dispatch_click:
  assumes "widget_inv s"
  shows "spec_step (abs_menu s) (abs_menu (dispatch_click t s))"
proof (cases "bound s \<and> t = T_Btn")
  case True
  then have "t = T_Btn" and b: "bound s" by simp_all
  have "outside_click_handler T_Btn (btn_click_handler s) = btn_click_handler s"
    by (simp add: outside_click_handler_def)
  with True sim_btn_click [OF assms b] show ?thesis by (simp add: dispatch_click_def Let_def)
next
  case nb: False
  show ?thesis
  proof (cases "bound s \<and> panel_contains (panel s) t")
    case True
    then have "outside_click_handler t (dropdown_click_handler t s) = dropdown_click_handler t s"
      by (simp add: outside_click_handler_def dropdown_click_handler_def)
    with nb True show ?thesis
      by (simp add: dispatch_click_def dropdown_click_handler_def outside_click_handler_def
          spec_step.close spec_step.stutter)
  next
    case False
    with nb have "dispatch_click t s =
        (if Outside_Click \<in> doc_listeners s then outside_click_handler t s else s)"
      by (auto simp: dispatch_click_def)
    then show ?thesis
      by (simp add: outside_click_handler_cases spec_step.close spec_step.stutter)
  qed
qed

lemma sim_dispatch_key:
  assumes "widget_inv s"
  shows "spec_step (abs_menu s) (abs_menu (dispatch_key k s))"
proof (cases "active s = T_Btn \<and> bound s \<and> (k = ''ArrowDown'' \<or> k = ''Enter'' \<or> k = '' '') \<and> \<not> open_class s")
  case True
  define s1 where "s1 = dispatch_click T_Btn s"
  define s2 where "s2 = (case query_first_focusable (panel s1) of
                           Some e \<Rightarrow> focus (T_Item (eid e)) s1 | None \<Rightarrow> s1)"
  have step1: "spec_step (abs_menu s) (abs_menu s2)"
    using sim_dispatch_click [OF assms, of T_Btn]
    by (simp add: s2_def s1_def split: option.splits)
  have i2: "widget_inv s2"
    using assms by (simp add: s2_def s1_def inv_rules split: option.splits)
  have "k \<noteq> ''Escape''" using True by auto
  then have "abs_menu (case key_handler k s2 of Inl _ \<Rightarrow> s2 | Inr s3 \<Rightarrow> s3) = abs_menu s2"
    by (auto split: sum.splits dest!: key_handler_results_not_escape)
  moreover have "btn_keydown_handler k s = s2"
    unfolding s2_def s1_def using True by (simp add: btn_keydown_handler_def Let_def)
  ultimately show ?thesis
    using True step1 by (simp add: dispatch_key_def)
next
  case False
  define s1 where "s1 = (case active s of
                  T_Btn \<Rightarrow> if bound s then btn_keydown_handler k s else s
                | T_Item i \<Rightarrow> if k = ''Escape'' \<and> esc_on_path (panel s) i then close_menu s else s
                | _ \<Rightarrow> s)"
  have "s1 = s \<or> s1 = close_menu s \<or> (\<exists>t. s1 = focus t s)"
    using False
    by (auto simp: s1_def btn_keydown_handler_def split: target.splits option.splits)
  then have c1: "same_or_closed s s1" by (auto simp: same_or_closed_def)
  have "same_or_closed s1 (case key_handler k s1 of Inl _ \<Rightarrow> s1 | Inr s2 \<Rightarrow> s2)"
    by (auto simp: same_or_closed_def split: sum.splits dest!: key_handler_results)
  with c1 have "same_or_closed s (if Key_Handler \<in> doc_listeners s1
                  then (case key_handler k s1 of Inl _ \<Rightarrow> s1 | Inr s2 \<Rightarrow> s2) else s1)"
    by (auto simp: same_or_closed_def)
  then show ?thesis
    by (auto simp: dispatch_key_def s1_def [symmetric] same_or_closed_def
        intro: spec_step.stutter spec_step.close)
qed

lemma sim_fetch_done:
  "spec_step (abs_menu s) (abs_menu (fetch_done r s))"
proof (cases "pending s = 0")
  case True
  then show ?thesis by (simp add: fetch_done_def spec_step.stutter)
next
  case False
  then have "spec_step (abs_menu s)
      \<lparr>is_open = True, loaded = True, in_flight = in_flight (abs_menu s) - 1\<rparr>"
    by (intro spec_step.complete) (simp add: abs_menu_def)
  with False show ?thesis by (simp add: fetch_done_pending abs_menu_def)
qed

lemma sim_init_header:
  assumes "widget_inv s"
  shows "abs_menu (init_header s) = abs_menu s"
proof (cases "init_done s")
  case False
  then have "\<not> bound s" using assms by (auto simp: widget_inv_def)
  with assms have "\<not> menu_loaded s" by (auto simp: widget_inv_def)
  then show ?thesis by (simp add: init_header_def Let_def abs_menu_def)
qed (simp add: init_header_def)

lemma sim_focus_move: "abs_menu (focus_move t s) = abs_menu s"
  by (simp add: focus_move_def)

text \<open>Every event of the page is one transition of the specification's machine.\<close>

lemma menu_sim:
  assumes "widget_inv s"
  shows "spec_step (abs_menu s) (abs_menu (step s e))"
proof (cases e)
  case Init
  then show ?thesis using sim_init_header [OF assms] by (simp add: spec_step.stutter)
next
  case (Click t)
  then show ?thesis using sim_dispatch_click [OF assms] by simp
next
  case (Key k)
  then show ?thesis
    using key_press_induct [where P = "\<lambda>s'. spec_step (abs_menu s) (abs_menu s')"]
      sim_dispatch_key [OF assms] sim_dispatch_click [OF assms] by simp
next
  case (Fetch_Done r)
  then show ?thesis by (simp add: sim_fetch_done)
next
  case (Focus_Move t)
  then show ?thesis by (simp add: sim_focus_move spec_step.stutter)
next
  case Resize
  then show ?thesis by (simp add: spec_step.stutter)
qed

lemma reachable_spec_reach: "reachable s \<Longrightarrow> spec_reach (abs_menu s)"
proof (induction rule: reachable.induct)
  case (start aria0 hb hdd pf p0)
  then show ?case by (simp add: abs_menu_def fresh_page_def spec_reach.init)
next
  case (step s e)
  then show ?case by (blast intro: spec_reach.step menu_sim reachable_widget_inv)
qed

subsection \<open>What the specification's machine guarantees\<close>

text \<open>In the abstract machine an open menu is a loaded one.\<close>

lemma spec_reach_open_loaded: "spec_reach a \<Longrightarrow> is_open a \<Longrightarrow> loaded a"
  by (induction rule: spec_reach.induct) (auto elim: spec_step_cases)

end
