(* ===== verification/Traversal.thy ===== *)
theory Traversal
  imports Invariants
begin

text \<open>
  Keyboard traversal as the user performs it: a keydown dispatched to the focused
  element of an open panel (\<open>dispatch_key\<close>) reaches \<^verbatim>\<open>keyHandler\<close> on
  \<^verbatim>\<open>document\<close>. On a panel whose elements are distinct, a focused item is at a
  position \<open>i\<close> of the item array; ArrowDown moves it to \<open>(i + 1) mod n\<close> and ArrowUp to
  \<open>(i + n - 1) mod n\<close>, computed here on natural numbers. Repeated ArrowDowns visit the
  items cyclically in document order, and ArrowUp undoes ArrowDown.
\<close>

subsection \<open>Positions as natural numbers\<close>

lemma int_succ_mod: "(int i + 1) mod int n = int ((i + 1) mod n)"
  by (simp only: of_nat_mod of_nat_add of_nat_1)

lemma int_pred_mod:
  assumes "0 < n"
  shows "(int i - 1) mod int n = int ((i + n - 1) mod n)"
proof -
  have "int (i + n - 1) = (int i - 1) + int n" using assms by (simp add: of_nat_diff)
  then show ?thesis by (simp only: of_nat_mod) simp
qed

lemma pred_succ_mod: "0 < (n::nat) \<Longrightarrow> i < n \<Longrightarrow> ((i + 1) mod n + n - 1) mod n = i"
proof -
  assume n: "0 < n" and i: "i < n"
  then obtain m where m: "n = Suc m" by (cases n) auto
  have "((i + 1) mod n + n - 1) mod n = ((i + 1) mod n + m) mod n" by (simp add: m)
  also have "\<dots> = (i + 1 + m) mod n" by (simp add: mod_add_left_eq)
  also have "i + 1 + m = i + n" by (simp add: m)
  finally show ?thesis using i by simp
qed

lemma arrow_items_item: "t \<in> set (arrow_items p) \<Longrightarrow> \<exists>j. t = T_Item j"
  by (auto simp: arrow_items_def)

subsection \<open>One arrow key on a focused item\<close>

lemma dispatch_key_not_btn:
  assumes "widget_inv s" and "open_class s" and "active s \<noteq> T_Btn" and "k \<noteq> ''Escape''"
  shows "dispatch_key k s = (case key_handler k s of Inl _ \<Rightarrow> s | Inr s' \<Rightarrow> s')"
  using open_listeners [OF assms(1,2)] assms(3,4)
  by (cases "active s") (simp_all add: dispatch_key_def)

lemma item_position:
  assumes "wf_panel p" and "i < length (arrow_items p)"
  shows "index_of (arrow_items p) (arrow_items p ! i) = int i"
  using index_of_distinct_nth [OF distinct_arrow_items [OF assms(1)] assms(2)] .

lemma dispatch_down_item:
  assumes "widget_inv s" and "open_class s" and "wf_panel (panel s)"
    and "i < length (arrow_items (panel s))" and "active s = arrow_items (panel s) ! i"
  shows "dispatch_key ''ArrowDown'' s =
           focus (arrow_items (panel s) ! ((i + 1) mod length (arrow_items (panel s)))) s"
proof -
  let ?xs = "arrow_items (panel s)"
  have ne: "?xs \<noteq> []" using assms(4) by auto
  have "active s \<noteq> T_Btn"
    using assms(4,5) arrow_items_item [of "active s" "panel s"] by auto
  then have "dispatch_key ''ArrowDown'' s =
      (case key_handler ''ArrowDown'' s of Inl _ \<Rightarrow> s | Inr s' \<Rightarrow> s')"
    using assms(1,2) by (simp add: dispatch_key_not_btn)
  also have "\<dots> = focus (?xs ! ((i + 1) mod length ?xs)) s"
    using assms(2,5) ne item_position [OF assms(3,4)]
    by (simp add: key_handler_down int_succ_mod)
  finally show ?thesis .
qed

lemma dispatch_up_item:
  assumes "widget_inv s" and "open_class s" and "wf_panel (panel s)"
    and "i < length (arrow_items (panel s))" and "active s = arrow_items (panel s) ! i"
  shows "dispatch_key ''ArrowUp'' s =
    focus (arrow_items (panel s) ! ((i + length (arrow_items (panel s)) - 1)
             mod length (arrow_items (panel s)))) s"
proof -
  let ?xs = "arrow_items (panel s)"
  have ne: "?xs \<noteq> []" and n: "0 < length ?xs" using assms(4) by auto
  have "active s \<noteq> T_Btn"
    using assms(4,5) arrow_items_item [of "active s" "panel s"] by auto
  then have "dispatch_key ''ArrowUp'' s =
      (case key_handler ''ArrowUp'' s of Inl _ \<Rightarrow> s | Inr s' \<Rightarrow> s')"
    using assms(1,2) by (simp add: dispatch_key_not_btn)
  also have "\<dots> = focus (?xs ! ((i + length ?xs - 1) mod length ?xs)) s"
    using assms(2,5) ne item_position [OF assms(3,4)]
    by (simp add: key_handler_up int_pred_mod [OF n])
  finally show ?thesis .
qed

lemma nav_demo_facts:
  "widget_inv (nav_demo t)" "open_class (nav_demo t)" "wf_panel (panel (nav_demo t))"
  "arrow_items (panel (nav_demo t)) = [T_Item 1, T_Item 2, T_Item 3]"
  by (simp_all add: widget_inv_def sync_def nav_demo_def wf_panel_def item_ids_def demo_defs
      arrow_items_def dom_query_defs focusable_def)

subsection \<open>Properties of the traversal\<close>

text \<open>
  C28. On an open panel whose elements are distinct, pressing ArrowDown \<open>k\<close> times
  from the item at position \<open>i\<close> focuses the item at position \<open>(i + k) mod n\<close>: the
  keys visit every item, in document order, cyclically.
\<close>

theorem arrow_down_cycles:
  assumes "widget_inv s" and "open_class s" and "wf_panel (panel s)"
    and "i < length (arrow_items (panel s))" and "active s = arrow_items (panel s) ! i"
  shows "active (run s (replicate k (Key ''ArrowDown''))) =
           arrow_items (panel s) ! ((i + k) mod length (arrow_items (panel s)))"
  using assms
proof (induction k arbitrary: s i)
  case 0
  then show ?case by simp
next
  case (Suc k)
  let ?n = "length (arrow_items (panel s))"
  define s' where "s' = focus (arrow_items (panel s) ! ((i + 1) mod ?n)) s"
  have st: "dispatch_key ''ArrowDown'' s = s'"
    using dispatch_down_item [OF Suc.prems] by (simp add: s'_def)
  have n: "0 < ?n" using Suc.prems(4) by linarith
  have "active (run s' (replicate k (Key ''ArrowDown''))) =
          arrow_items (panel s) ! (((i + 1) mod ?n + k) mod ?n)"
    using Suc.IH [of s' "(i + 1) mod ?n"] Suc.prems n by (simp add: s'_def inv_focus)
  also have "((i + 1) mod ?n + k) mod ?n = (i + Suc k) mod ?n" by (simp add: mod_add_left_eq)
  finally show ?case by (simp add: st)
qed

theorem arrow_down_cycles_witness:
  "widget_inv (nav_demo (T_Item 1)) \<and> open_class (nav_demo (T_Item 1))
   \<and> wf_panel (panel (nav_demo (T_Item 1)))
   \<and> active (run (nav_demo (T_Item 1)) (replicate 4 (Key ''ArrowDown''))) = T_Item 2"
proof -
  have a: "active (nav_demo (T_Item 1)) = arrow_items (panel (nav_demo (T_Item 1))) ! 0"
    by (simp add: nav_demo_facts(4)) (simp add: nav_demo_def)
  show ?thesis
    using arrow_down_cycles [OF nav_demo_facts(1-3) _ a, of 4] nav_demo_facts
    by simp
qed

text \<open>
  C29. On an open panel whose elements are distinct, ArrowUp undoes ArrowDown: from a
  focused item, the two keys in turn give back the very same page.
\<close>

theorem arrow_down_up_roundtrip:
  assumes "widget_inv s" and "open_class s" and "wf_panel (panel s)"
    and "active s \<in> set (arrow_items (panel s))"
  shows "run s [Key ''ArrowDown'', Key ''ArrowUp''] = s"
proof -
  let ?xs = "arrow_items (panel s)"
  let ?n = "length ?xs"
  obtain i where i: "i < ?n" and a: "active s = ?xs ! i"
    using assms(4) by (auto simp: in_set_conv_nth)
  have n: "0 < ?n" using i by linarith
  define s' where "s' = focus (?xs ! ((i + 1) mod ?n)) s"
  have d: "dispatch_key ''ArrowDown'' s = s'"
    using dispatch_down_item [OF assms(1-3) i a] by (simp add: s'_def)
  have ps: "panel s' = panel s" by (simp add: s'_def)
  have j: "(i + 1) mod ?n < ?n" by (rule mod_less_divisor [OF n])
  have i': "widget_inv s'" "open_class s'" "wf_panel (panel s')"
    using assms by (simp_all add: s'_def inv_focus)
  have j': "(i + 1) mod ?n < length (arrow_items (panel s'))" unfolding ps by (rule j)
  have a': "active s' = arrow_items (panel s') ! ((i + 1) mod ?n)" by (simp add: s'_def)
  note u0 = dispatch_up_item [OF i' j' a']
  have u: "dispatch_key ''ArrowUp'' s' = focus (?xs ! i) s'"
    using u0 unfolding ps pred_succ_mod [OF n i] .
  have "run s [Key ''ArrowDown'', Key ''ArrowUp''] = focus (?xs ! i) s'" by (simp add: d u)
  also have "\<dots> = s" using a by (simp add: s'_def focus_def)
  finally show ?thesis .
qed

theorem arrow_down_up_roundtrip_witness:
  "widget_inv (nav_demo (T_Item 3)) \<and> open_class (nav_demo (T_Item 3))
   \<and> wf_panel (panel (nav_demo (T_Item 3)))
   \<and> T_Item 3 \<in> set (arrow_items (panel (nav_demo (T_Item 3))))
   \<and> run (nav_demo (T_Item 3)) [Key ''ArrowDown'', Key ''ArrowUp''] = nav_demo (T_Item 3)"
proof -
  have "active (nav_demo (T_Item 3)) \<in> set (arrow_items (panel (nav_demo (T_Item 3))))"
    by (simp add: nav_demo_facts(4)) (simp add: nav_demo_def)
  with arrow_down_up_roundtrip [OF nav_demo_facts(1-3)] nav_demo_facts show ?thesis by simp
qed

end
