(* ===== verification/Requests.thy ===== *)
theory Requests
  imports Invariants "HOL-Library.While_Combinator"
begin

text \<open>
  The requests for \<^verbatim>\<open>menu.html\<close>. Only the trigger's click listener issues one
  (\<^verbatim>\<open>src/header.js\<close>, lines 89--91), and only while \<^verbatim>\<open>menuLoaded\<close> is false; a
  keydown on the trigger reaches it through the synthetic \<^verbatim>\<open>btn.click()\<close> of line 100.
  It shows the loading placeholder first (line 90). Every other handler leaves the
  request count, the pending continuations, the loaded flag and the panel's content alone
  (\<open>same_counts\<close>), except the continuation, which sets the flag.
  \<open>req_inv\<close>: while the menu is not loaded, every request issued is still pending.
  \<open>serial\<close> describes a user who does not activate the trigger while a request is in
  flight; such runs issue at most one request. \<open>drain\<close> is the network answering
  every outstanding request in turn, with no user event in between: a loop of the event
  loop that ends, since each answer resumes one suspended listener.
\<close>

text \<open>The events that reach the trigger's click listener.\<close>

definition trigger_event :: "page \<Rightarrow> event \<Rightarrow> bool" where
  "trigger_event s e =
     (case e of
        Click t \<Rightarrow> t = T_Btn
      | Key k \<Rightarrow> active s = T_Btn \<and> (k = ''ArrowDown'' \<or> k = ''Enter'' \<or> k = '' '')
      | _ \<Rightarrow> False)"

fun serial :: "page \<Rightarrow> event list \<Rightarrow> bool" where
  "serial s [] = True"
| "serial s (e # es) = ((pending s = 0 \<or> \<not> trigger_event s e) \<and> serial (step s e) es)"

definition drain :: "fetch_result \<Rightarrow> page \<Rightarrow> page option" where
  "drain r s = while_option (\<lambda>s. 0 < pending s) (fetch_done r) s"

definition same_counts :: "page \<Rightarrow> page \<Rightarrow> bool" where
  "same_counts s s' \<longleftrightarrow>
     requests s' = requests s \<and> pending s' = pending s \<and> menu_loaded s' = menu_loaded s
     \<and> panel s' = panel s"

definition new_request :: "page \<Rightarrow> page \<Rightarrow> bool" where
  "new_request s s' \<longleftrightarrow>
     \<not> menu_loaded s \<and> \<not> menu_loaded s'
     \<and> requests s' = Suc (requests s) \<and> pending s' = Suc (pending s)
     \<and> panel s' = Note Loading"

definition req_inv :: "page \<Rightarrow> bool" where
  "req_inv s \<longleftrightarrow> (\<not> menu_loaded s \<longrightarrow> requests s = pending s)"

named_theorems count_rules "operations that leave the request counts alone"

subsection \<open>Each handler and the counts\<close>

lemma same_counts_basic [count_rules]:
  "same_counts s s" "same_counts s (close_menu s)" "same_counts s (open_menu s)"
  "same_counts s (focus t s)"
  by (simp_all add: same_counts_def)

lemma same_counts_trans: "same_counts s s1 \<Longrightarrow> same_counts s1 s2 \<Longrightarrow> same_counts s s2"
  by (simp add: same_counts_def)

lemma new_request_same: "new_request s s1 \<Longrightarrow> same_counts s1 s2 \<Longrightarrow> new_request s s2"
  by (simp add: new_request_def same_counts_def)

lemma outside_click_counts [count_rules]: "same_counts s (outside_click_handler t s)"
  by (simp add: outside_click_handler_cases count_rules)

lemma dropdown_click_counts [count_rules]: "same_counts s (dropdown_click_handler t s)"
  by (simp add: dropdown_click_handler_def count_rules)

lemma key_result_counts [count_rules]:
  "same_counts s (case key_handler k s of Inl _ \<Rightarrow> s | Inr s' \<Rightarrow> s')"
  by (auto simp: count_rules split: sum.splits dest: key_handler_results)

lemma dispatch_click_counts:
  assumes "widget_inv s"
  shows "same_counts s (dispatch_click t s) \<or> (t = T_Btn \<and> new_request s (dispatch_click t s))"
proof (cases "bound s \<and> t = T_Btn")
  case True
  then have t: "t = T_Btn" and b: "bound s" by simp_all
  consider (o) "open_class s" | (l) "\<not> open_class s" "menu_loaded s"
    | (u) "\<not> open_class s" "\<not> menu_loaded s" by blast
  then show ?thesis
  proof cases
    case o
    then show ?thesis by (simp add: t dispatch_click_btn_open [OF assms] count_rules)
  next
    case l
    then show ?thesis by (simp add: t dispatch_click_btn_loaded [OF assms _ b] count_rules)
  next
    case u
    then show ?thesis by (simp add: t dispatch_click_btn_unloaded [OF assms _ b] new_request_def)
  qed
next
  case False
  define s1 where "s1 = (if bound s \<and> panel_contains (panel s) t then dropdown_click_handler t s else s)"
  have "dispatch_click t s = (if Outside_Click \<in> doc_listeners s1 then outside_click_handler t s1 else s1)"
    using False by (auto simp: dispatch_click_def s1_def)
  moreover have "same_counts s s1" by (simp add: s1_def count_rules)
  ultimately show ?thesis by (auto intro: same_counts_trans count_rules)
qed

lemma btn_keydown_counts:
  assumes "widget_inv s"
  shows "same_counts s (btn_keydown_handler k s)
         \<or> ((k = ''ArrowDown'' \<or> k = ''Enter'' \<or> k = '' '') \<and> new_request s (btn_keydown_handler k s))"
proof (cases "k = ''ArrowDown'' \<or> k = ''Enter'' \<or> k = '' ''")
  case True
  define s1 where "s1 = (if \<not> open_class s then dispatch_click T_Btn s else s)"
  have c1: "same_counts s s1 \<or> new_request s s1"
    using dispatch_click_counts [OF assms, of T_Btn] by (auto simp: s1_def count_rules)
  have "same_counts s1 (btn_keydown_handler k s)"
    using True by (simp add: btn_keydown_handler_def s1_def [symmetric] count_rules
        split: option.splits)
  with c1 True show ?thesis by (blast intro: same_counts_trans new_request_same)
qed (simp add: btn_keydown_handler_def count_rules)

lemma dispatch_key_counts:
  assumes "widget_inv s"
  shows "same_counts s (dispatch_key k s) \<or> (trigger_event s (Key k) \<and> new_request s (dispatch_key k s))"
proof -
  define s1 where "s1 = (case active s of
                  T_Btn \<Rightarrow> if bound s then btn_keydown_handler k s else s
                | T_Item i \<Rightarrow> if k = ''Escape'' \<and> esc_on_path (panel s) i then close_menu s else s
                | _ \<Rightarrow> s)"
  have c1: "same_counts s s1 \<or> (trigger_event s (Key k) \<and> new_request s s1)"
    using btn_keydown_counts [OF assms, of k]
    by (cases "active s") (auto simp: s1_def trigger_event_def count_rules)
  have "same_counts s1 (dispatch_key k s)"
    by (simp add: dispatch_key_def s1_def [symmetric] count_rules)
  with c1 show ?thesis by (blast intro: same_counts_trans new_request_same)
qed

lemma fetch_done_counts:
  "same_counts s (fetch_done r s)
   \<or> (menu_loaded (fetch_done r s) \<and> requests (fetch_done r s) = requests s
      \<and> pending (fetch_done r s) \<le> pending s)"
proof (cases "pending s = 0")
  case True
  then show ?thesis by (simp add: fetch_done_def count_rules)
next
  case False
  then show ?thesis by (simp add: fetch_done_pending)
qed

lemma init_header_counts:
  assumes "widget_inv s"
  shows "same_counts s (init_header s)"
proof (cases "init_done s")
  case False
  with assms have "\<not> menu_loaded s" by (auto simp: widget_inv_def)
  then show ?thesis by (simp add: init_header_def Let_def same_counts_def)
qed (simp add: init_header_def count_rules)

lemma step_counts:
  assumes "widget_inv s"
  shows "same_counts s (step s e) \<or> (trigger_event s e \<and> new_request s (step s e))
         \<or> (menu_loaded (step s e) \<and> requests (step s e) = requests s
            \<and> pending (step s e) \<le> pending s)"
proof (cases e)
  case (Click t)
  then show ?thesis using dispatch_click_counts [OF assms, of t] by (auto simp: trigger_event_def)
next
  case (Key k)
  have "same_counts s (key_press k s) \<or> (trigger_event s (Key k) \<and> new_request s (key_press k s))"
    using key_press_cases [of k s] dispatch_key_counts [OF assms, of k]
      dispatch_click_counts [OF assms, of "active s"] key_activates_keys [of k s]
    by (auto simp: trigger_event_def)
  with Key show ?thesis by auto
next
  case (Fetch_Done r)
  then show ?thesis using fetch_done_counts [of s r] by auto
qed (simp_all add: init_header_counts [OF assms] focus_move_def count_rules)

subsection \<open>The request invariant\<close>

lemma req_inv_step: "widget_inv s \<Longrightarrow> req_inv s \<Longrightarrow> req_inv (step s e)"
  using step_counts [of s e] by (auto simp: req_inv_def same_counts_def new_request_def)

lemma reachable_req_inv: "reachable s \<Longrightarrow> req_inv s"
proof (induction rule: reachable.induct)
  case (start aria0 hb hdd pf p0)
  then show ?case by (simp add: req_inv_def fresh_page_def)
next
  case (step s e)
  then show ?case by (blast intro: req_inv_step reachable_widget_inv)
qed

lemma serial_requests:
  "widget_inv s \<Longrightarrow> req_inv s \<Longrightarrow> requests s \<le> 1 \<Longrightarrow> serial s es \<Longrightarrow> requests (run s es) \<le> 1"
proof (induction es arbitrary: s)
  case (Cons e es)
  have "requests (step s e) \<le> 1"
    using step_counts [OF Cons.prems(1), of e] Cons.prems(2-4)
    by (auto simp: same_counts_def new_request_def req_inv_def)
  moreover have "widget_inv (step s e)" "req_inv (step s e)"
    using Cons.prems(1,2) by (simp_all add: inv_step req_inv_step)
  moreover have "serial (step s e) es" using Cons.prems(4) by simp
  ultimately have "requests (run (step s e) es) \<le> 1" using Cons.IH by blast
  then show ?case by simp
qed simp


subsection \<open>Answering every outstanding request\<close>

lemma fetch_done_opens:
  "0 < pending s \<or> open_class s \<and> menu_loaded s \<Longrightarrow>
     open_class (fetch_done r s) \<and> menu_loaded (fetch_done r s)"
proof (cases "pending s = 0")
  case False
  then show ?thesis by (simp add: fetch_done_pending)
qed (auto simp: fetch_done_def)

lemma fetch_done_pending_dec: "0 < pending s \<Longrightarrow> pending (fetch_done r s) = pending s - 1"
  by (simp add: fetch_done_pending)

lemma drain_Some: "\<exists>t. drain r s = Some t"
  unfolding drain_def
  by (rule measure_while_option_Some [where P = "\<lambda>_. True" and f = pending])
     (simp_all add: fetch_done_pending_dec)

lemma drain_stop: "drain r s = Some t \<Longrightarrow> pending t = 0"
  unfolding drain_def by (auto dest: while_option_stop)

lemma drain_opens:
  assumes "drain r s = Some t" and "0 < pending s"
  shows "open_class t \<and> menu_loaded t"
proof -
  have w: "while_option (\<lambda>s. 0 < pending s) (fetch_done r) (fetch_done r s) = Some t"
    using assms by (simp add: drain_def while_option_unfold [of _ _ s])
  show ?thesis
  proof (rule while_option_rule [where P = "\<lambda>s. open_class s \<and> menu_loaded s", OF _ w])
    fix s' :: page assume "open_class s' \<and> menu_loaded s'"
    then show "open_class (fetch_done r s') \<and> menu_loaded (fetch_done r s')"
      by (simp add: fetch_done_opens)
  next
    show "open_class (fetch_done r s) \<and> menu_loaded (fetch_done r s)"
      using assms(2) by (simp add: fetch_done_opens)
  qed
qed

end
