(* ===== verification/Loading.thy ===== *)
theory Loading
  imports Requests
begin

text \<open>
  What a load in flight leaves visible and what it logs. Only \<^verbatim>\<open>loadMenuHtml\<close>
  writes to the console (\<^verbatim>\<open>console.error\<close> in its \<^verbatim>\<open>catch\<close>, \<^verbatim>\<open>src/header.js\<close>
  line 39), once per answered request that failed; only the trigger's click listener and
  \<^verbatim>\<open>loadMenuHtml\<close> replace the panel's content. \<open>console_inv\<close>: the entries of the
  console and the requests still in flight together never outnumber the requests issued.
  \<open>loading_inv\<close>: while a request is in flight and the menu is not loaded, the panel
  shows the ``Loading navigation'' placeholder (line 90).
\<close>

definition console_inv :: "page \<Rightarrow> bool" where
  "console_inv s \<longleftrightarrow> length (console s) + pending s \<le> requests s"

definition loading_inv :: "page \<Rightarrow> bool" where
  "loading_inv s \<longleftrightarrow> (\<not> menu_loaded s \<and> 0 < pending s \<longrightarrow> panel s = Note Loading)"

named_theorems frame_rules "handlers that leave the console and the panel alone"

subsection \<open>Console and panel across the handlers\<close>

lemma key_result_frame [frame_rules]:
  "console (case key_handler k s of Inl _ \<Rightarrow> s | Inr s' \<Rightarrow> s') = console s"
  "panel (case key_handler k s of Inl _ \<Rightarrow> s | Inr s' \<Rightarrow> s') = panel s"
  by (auto split: sum.splits dest: key_handler_results)

lemma dispatch_click_console [frame_rules]: "console (dispatch_click t s) = console s"
  by (simp add: dispatch_click_def Let_def btn_click_handler_def dropdown_click_handler_def
      outside_click_handler_def)

lemma btn_keydown_console [frame_rules]: "console (btn_keydown_handler k s) = console s"
  by (simp add: btn_keydown_handler_def Let_def frame_rules split: option.splits)

lemma dispatch_key_console [frame_rules]: "console (dispatch_key k s) = console s"
  by (simp add: dispatch_key_def Let_def frame_rules split: target.splits)

lemma key_press_console [frame_rules]: "console (key_press k s) = console s"
  by (rule key_press_induct) (simp_all add: frame_rules)

lemma load_finish_console:
  "length (console (load_finish r s)) \<le> Suc (length (console s))"
  by (simp add: load_finish_def load_failure_def load_success_def Let_def split: sum.splits)

lemma fetch_done_console:
  "0 < pending s \<Longrightarrow> length (console (fetch_done r s)) \<le> Suc (length (console s))"
  using load_finish_console [of r "s\<lparr>pending := pending s - 1\<rparr>"]
  by (simp add: fetch_done_pending)

lemma step_console:
  "console (step s e) = console s
   \<or> (e \<in> range Fetch_Done \<and> 0 < pending s \<and> length (console (step s e)) \<le> Suc (length (console s))
      \<and> pending (step s e) = pending s - 1 \<and> requests (step s e) = requests s)"
proof (cases e)
  case (Fetch_Done r)
  show ?thesis
  proof (cases "pending s = 0")
    case False
    then show ?thesis
      using fetch_done_console [of s r] fetch_done_pending_dec [of s r] fetch_done_counts [of s r]
      by (auto simp: Fetch_Done same_counts_def)
  qed (simp add: Fetch_Done fetch_done_def)
qed (simp_all add: frame_rules init_header_def Let_def focus_move_def)

subsection \<open>The console bound\<close>

lemma console_inv_step:
  assumes "widget_inv s" and "console_inv s"
  shows "console_inv (step s e)"
  using step_console [of s e] step_counts [OF assms(1), of e] assms(2)
  by (auto simp: console_inv_def same_counts_def new_request_def)


lemma reachable_console_inv: "reachable s \<Longrightarrow> console_inv s"
proof (induction rule: reachable.induct)
  case (start aria0 hb hdd pf p0)
  then show ?case by (simp add: console_inv_def fresh_page_def)
next
  case (step s e)
  then show ?case by (simp add: console_inv_step reachable_widget_inv)
qed

subsection \<open>The loading placeholder\<close>

lemma loading_inv_step:
  assumes "widget_inv s" and "loading_inv s"
  shows "loading_inv (step s e)"
  using step_counts [OF assms(1), of e] assms(2)
  by (auto simp: loading_inv_def same_counts_def new_request_def)

lemma reachable_loading_inv: "reachable s \<Longrightarrow> loading_inv s"
proof (induction rule: reachable.induct)
  case (start aria0 hb hdd pf p0)
  then show ?case by (simp add: loading_inv_def fresh_page_def)
next
  case (step s e)
  then show ?case by (simp add: loading_inv_step reachable_widget_inv)
qed

subsection \<open>An open/close cycle\<close>

lemma close_open_menu:
  assumes "doc_listeners s = {}" and "\<not> open_class s"
  shows "close_menu (open_menu s) = s\<lparr>aria_expanded := Some ''false'', active := T_Btn\<rparr>"
proof -
  have "{Key_Handler, Outside_Click} - {Outside_Click} - {Key_Handler} = {}" by auto
  with assms show ?thesis
    by (cases s) (simp add: close_menu_def open_menu_def Let_def focus_def focus_panel_def
        split: option.splits)
qed

end
