(* ===== verification/Focus.thy ===== *)
theory Focus
  imports Invariants
begin

text \<open>
  Where the focus can be. Every \<^verbatim>\<open>focus()\<close> call of \<^verbatim>\<open>src/header.js\<close> is on the
  trigger, on the panel (a no-op unless the host made it focusable), or on an element
  the selector \<^verbatim>\<open>'a, button, [tabindex]:not([tabindex="-1"])'\<close> found in the panel;
  the user's own focus moves go to focusable elements, and replacing the panel's content
  sends a focus that was inside it back to the body. \<open>focus_ok\<close> states the result:
  the focused element of the panel is one of its current, focusable elements, and the
  panel itself has the focus only if it can take it.
\<close>

definition focus_ok :: "page \<Rightarrow> bool" where
  "focus_ok s \<longleftrightarrow>
     (case active s of
        T_Item i \<Rightarrow> (\<exists>e \<in> set (query_focusables (panel s)). eid e = i)
      | T_Panel \<Rightarrow> panel_focusable s
      | _ \<Rightarrow> True)"

named_theorems focus_rules "operations that keep the focus on a live element"

subsection \<open>Each operation keeps the focus valid\<close>

lemma focus_ok_focus_item [focus_rules]:
  "e \<in> set (query_focusables (panel s)) \<Longrightarrow> focus_ok (focus (T_Item (eid e)) s)"
  by (auto simp: focus_ok_def)

lemma focus_ok_focus_btn [focus_rules]: "focus_ok (focus T_Btn s)"
  by (simp add: focus_ok_def)

lemma focus_ok_set_panel [focus_rules]: "focus_ok s \<Longrightarrow> focus_ok (set_panel p s)"
  by (auto simp: focus_ok_def set_panel_def split: target.splits)

lemma focus_ok_focus_panel [focus_rules]: "focus_ok s \<Longrightarrow> focus_ok (focus_panel s)"
  by (simp add: focus_ok_def focus_panel_def)

lemma first_focusable_mem:
  "query_first_focusable p = Some e \<Longrightarrow> e \<in> set (query_focusables p)"
  by (auto simp: query_first_focusable_def query_focusables_def find_Some_iff nth_mem)

lemma focus_ok_first [focus_rules]:
  "focus_ok s \<Longrightarrow> focus_ok (case query_first_focusable (panel s) of
                                 Some e \<Rightarrow> focus (T_Item (eid e)) s | None \<Rightarrow> s)"
  by (auto simp: focus_ok_focus_item first_focusable_mem split: option.splits)

text \<open>Changes of the fields \<open>focus_ok\<close> does not read.\<close>

lemma focus_ok_frame:
  "focus_ok s \<Longrightarrow> active s' = active s \<Longrightarrow> panel s' = panel s
   \<Longrightarrow> panel_focusable s' = panel_focusable s \<Longrightarrow> focus_ok s'"
  by (simp add: focus_ok_def split: target.splits)

lemma focus_ok_open [focus_rules]: "focus_ok s \<Longrightarrow> focus_ok (open_menu s)"
  by (auto simp: open_menu_def Let_def focus_ok_def focus_panel_def first_focusable_mem
      split: option.splits target.splits)

lemma focus_ok_close [focus_rules]: "focus_ok (close_menu s)"
  by (simp add: focus_ok_def)

lemma focus_ok_outside [focus_rules]: "focus_ok s \<Longrightarrow> focus_ok (outside_click_handler t s)"
  by (simp add: outside_click_handler_cases focus_rules)

lemma focus_ok_fetch_start [focus_rules]: "focus_ok s \<Longrightarrow> focus_ok (load_fetch_start s)"
  by (erule focus_ok_frame) simp_all

lemma focus_ok_load_finish [focus_rules]: "focus_ok s \<Longrightarrow> focus_ok (load_finish r s)"
proof -
  assume ok: "focus_ok s"
  have "focus_ok (load_failure err s)" for err
    using ok by (simp add: load_failure_def focus_ok_def set_panel_def split: target.splits)
  moreover have "focus_ok (load_success html s)" for html
    using ok by (simp add: load_success_def Let_def focus_ok_def set_panel_def
        split: target.splits)
  ultimately show ?thesis by (simp add: load_finish_def split: sum.splits)
qed

lemma nth_eid_mem: "0 \<le> k \<Longrightarrow> k < int (length xs) \<Longrightarrow> \<exists>e \<in> set xs. eid e = eid (xs ! nat k)"
  by (metis nat_less_iff nth_mem)

lemma focus_ok_key_handler [focus_rules]:
  assumes "focus_ok s"
  shows "focus_ok (case key_handler k s of Inl _ \<Rightarrow> s | Inr s' \<Rightarrow> s')"
proof -
  have "focus_ok s'" if "key_handler k s = Inr s'" for s'
    using that assms
    by (auto simp: key_handler_def Let_def arrow_items_def js_at_def focus_ok_def nth_eid_mem
        split: if_splits option.splits)
  with assms show ?thesis by (simp split: sum.splits)
qed


subsection \<open>The handlers and the environment\<close>

lemma focus_ok_btn_click [focus_rules]: "focus_ok s \<Longrightarrow> focus_ok (btn_click_handler s)"
  by (simp add: btn_click_handler_def Let_def focus_rules)

lemma focus_ok_dropdown_click [focus_rules]:
  "focus_ok s \<Longrightarrow> focus_ok (dropdown_click_handler t s)"
  by (simp add: dropdown_click_handler_def focus_rules)

lemma focus_ok_dispatch_click [focus_rules]: "focus_ok s \<Longrightarrow> focus_ok (dispatch_click t s)"
  by (simp add: dispatch_click_def Let_def focus_rules)

lemma focus_ok_btn_keydown [focus_rules]: "focus_ok s \<Longrightarrow> focus_ok (btn_keydown_handler k s)"
  by (simp add: btn_keydown_handler_def Let_def focus_ok_first focus_rules)

lemma focus_ok_dispatch_key [focus_rules]: "focus_ok s \<Longrightarrow> focus_ok (dispatch_key k s)"
  by (simp add: dispatch_key_def Let_def focus_ok_key_handler focus_rules split: target.splits)

lemma focus_ok_key_press [focus_rules]: "focus_ok s \<Longrightarrow> focus_ok (key_press k s)"
  by (rule key_press_induct) (simp_all add: focus_rules)

lemma focus_ok_fetch_done [focus_rules]: "focus_ok s \<Longrightarrow> focus_ok (fetch_done r s)"
proof -
  assume ok: "focus_ok s"
  then have "focus_ok (s\<lparr>pending := pending s - 1\<rparr>)" by (rule focus_ok_frame) simp_all
  with ok show ?thesis by (simp add: fetch_done_def resume_click_def focus_rules)
qed

lemma focus_ok_init_header [focus_rules]: "focus_ok s \<Longrightarrow> focus_ok (init_header s)"
  by (erule focus_ok_frame) (simp_all add: init_header_def Let_def)

lemma focus_ok_focus_move [focus_rules]: "focus_ok s \<Longrightarrow> focus_ok (focus_move t s)"
  by (cases t)
     (auto simp: focus_move_def focus_ok_def lookup_elem_def query_focusables_def
        find_Some_iff split: option.splits intro!: exI [of _ "panel_elems (panel s) ! _"])

lemma focus_ok_step: "focus_ok s \<Longrightarrow> focus_ok (step s e)"
  by (cases e) (simp_all add: focus_rules)

lemma reachable_focus_ok: "reachable s \<Longrightarrow> focus_ok s"
proof (induction rule: reachable.induct)
  case (start aria0 hb hdd pf p0)
  then show ?case by (simp add: focus_ok_def fresh_page_def)
next
  case (step s e)
  then show ?case by (simp add: focus_ok_step)
qed

end
