(* ===== verification/Cyclic.thy ===== *)
theory Cyclic
  imports Keynav
begin

text \<open>
  A reference for the keyboard traversal of \<^verbatim>\<open>keyHandler\<close> (\<^verbatim>\<open>src/header.js\<close>,
  lines 74--80), written as the specification words it and free of arithmetic: the
  element after the focused one, or the first when the focused one is the last or not
  in the sequence (\<open>cyc_next\<close>); the element before it, or the last when it is the first
  (\<open>cyc_prev\<close>). Both walk the list, as \<^verbatim>\<open>indexOf\<close> does, to the first occurrence.
  The code's \<^verbatim>\<open>indexOf\<close> and \<^verbatim>\<open>%\<close> compute the same elements: ArrowDown always,
  ArrowUp whenever the focus is on one of the items (C15 shows where it is not).
\<close>

fun succ_of :: "'a list \<Rightarrow> 'a \<Rightarrow> 'a option" where
  "succ_of (a # b # rest) x = (if a = x then Some b else succ_of (b # rest) x)"
| "succ_of _ x = None"

fun pred_of :: "'a list \<Rightarrow> 'a \<Rightarrow> 'a option" where
  "pred_of (a # b # rest) x =
     (if a = x then None else if b = x then Some a else pred_of (b # rest) x)"
| "pred_of _ x = None"

definition cyc_next :: "'a list \<Rightarrow> 'a \<Rightarrow> 'a" where
  "cyc_next xs x = (case succ_of xs x of Some y \<Rightarrow> y | None \<Rightarrow> hd xs)"

definition cyc_prev :: "'a list \<Rightarrow> 'a \<Rightarrow> 'a" where
  "cyc_prev xs x = (case pred_of xs x of Some y \<Rightarrow> y | None \<Rightarrow> last xs)"

subsection \<open>The reference in terms of positions\<close>

lemma index_of_Cons_other:
  "y \<noteq> x \<Longrightarrow> x \<in> set ys \<Longrightarrow> index_of (y # ys) x = index_of ys x + 1"
  using index_of_neg_iff [of ys x] by (simp add: Let_def)

lemma succ_of_index:
  "succ_of xs x =
     (if x \<in> set xs \<and> nat (index_of xs x) + 1 < length xs
      then Some (xs ! (nat (index_of xs x) + 1)) else None)"
proof (induction xs x rule: succ_of.induct)
  case (1 a b rest x)
  show ?case
  proof (cases "a = x")
    case False
    show ?thesis
    proof (cases "x \<in> set (b # rest)")
      case True
      have "0 \<le> index_of (b # rest) x" by (rule conjunct1 [OF index_of_nth [OF True]])
      with False True 1 show ?thesis
        by (simp add: index_of_Cons_other nat_add_distrib del: index_of.simps)
    qed (use False 1 in simp)
  qed simp
qed auto

lemma pred_of_index:
  "pred_of xs x =
     (if x \<in> set xs \<and> 0 < index_of xs x then Some (xs ! (nat (index_of xs x) - 1)) else None)"
proof (induction xs x rule: pred_of.induct)
  case (1 a b rest x)
  consider "a = x" | "a \<noteq> x" "b = x" | "a \<noteq> x" "b \<noteq> x" "x \<notin> set rest"
    | "a \<noteq> x" "b \<noteq> x" "x \<in> set rest" by blast
  then show ?case
  proof cases
    case 4
    have "0 \<le> index_of rest x" by (rule conjunct1 [OF index_of_nth [OF 4(3)]])
    with 4 1 show ?thesis
      by (simp add: index_of_Cons_other nat_add_distrib del: index_of.simps)
  qed (use 1 in simp_all)
qed auto

subsection \<open>Equivalence with the code's arithmetic\<close>

lemma index_of_nat:
  assumes "x \<in> set xs"
  obtains i where "index_of xs x = int i" and "i < length xs" and "xs ! i = x"
proof
  show "index_of xs x = int (nat (index_of xs x))" using index_of_nth [OF assms] by simp
  show "nat (index_of xs x) < length xs"
    using index_of_nth [OF assms] index_of_bounds [of xs x] by (simp add: nat_less_iff)
  show "xs ! nat (index_of xs x) = x" using index_of_nth [OF assms] by simp
qed

lemma cyc_next_index:
  assumes "xs \<noteq> []"
  shows "xs ! nat ((index_of xs x + 1) mod int (length xs)) = cyc_next xs x"
proof (cases "x \<in> set xs")
  case False
  with assms show ?thesis by (simp add: cyc_next_def succ_of_index hd_conv_nth)
next
  case True
  then obtain i where idx: "index_of xs x = int i" and lt: "i < length xs"
    by (rule index_of_nat)
  show ?thesis
  proof (cases "i + 1 < length xs")
    case True
    then have "(index_of xs x + 1) mod int (length xs) = int (i + 1)" by (simp add: idx)
    moreover have "nat (int i + 1) = Suc i" by arith
    ultimately show ?thesis
      using True \<open>x \<in> set xs\<close> by (simp add: cyc_next_def succ_of_index idx)
  next
    case False
    with lt have "i + 1 = length xs" by simp
    then have "index_of xs x + 1 = int (length xs)" unfolding idx by arith
    then have "(index_of xs x + 1) mod int (length xs) = 0" by simp
    with False assms show ?thesis by (simp add: cyc_next_def succ_of_index hd_conv_nth idx)
  qed
qed

lemma cyc_prev_index:
  assumes "x \<in> set xs"
  shows "xs ! nat ((index_of xs x - 1) mod int (length xs)) = cyc_prev xs x"
proof -
  obtain i where idx: "index_of xs x = int i" and lt: "i < length xs"
    using assms by (rule index_of_nat)
  have ne: "xs \<noteq> []" using assms by auto
  show ?thesis
  proof (cases "0 < i")
    case True
    then have "(index_of xs x - 1) mod int (length xs) = int (i - 1)"
      using lt by (simp add: idx of_nat_diff)
    with True assms show ?thesis by (simp add: cyc_prev_def pred_of_index idx)
  next
    case False
    have l: "int (length xs - 1) = int (length xs) - 1" using int_length_pred [OF ne] by linarith
    from False have "(index_of xs x - 1) mod int (length xs) = int (length xs) - 1"
      using ne by (simp add: idx zmod_minus1 int_length_ge1)
    also have "\<dots> = int (length xs - 1)" by (rule l [symmetric])
    finally have "(index_of xs x - 1) mod int (length xs) = int (length xs - 1)" .
    with False assms ne show ?thesis by (simp add: cyc_prev_def pred_of_index last_conv_nth idx)
  qed
qed


subsection \<open>The traversal is the reference\<close>

text \<open>
  C33. On an open panel with at least one item, ArrowDown focuses exactly the reference
  successor of the focused element: the next item, or the first one after the last item or
  when the focus is outside the items.
\<close>

theorem key_down_equiv:
  assumes "open_class s" and "arrow_items (panel s) \<noteq> []"
  shows "key_handler ''ArrowDown'' s = Inr (focus (cyc_next (arrow_items (panel s)) (active s)) s)"
  using assms by (simp add: key_handler_down cyc_next_index)

theorem key_down_equiv_witness:
  "open_class (nav_demo (T_Item 3)) \<and> arrow_items (panel (nav_demo (T_Item 3))) \<noteq> []
   \<and> key_handler ''ArrowDown'' (nav_demo (T_Item 3)) = Inr (nav_demo (T_Item 1))"
proof -
  have i: "arrow_items (panel (nav_demo (T_Item 3))) = [T_Item 1, T_Item 2, T_Item 3]"
    by (simp add: nav_demo_def demo_defs arrow_items_def dom_query_defs focusable_def)
  have o: "open_class (nav_demo (T_Item 3))" by (simp add: nav_demo_def)
  have "focus (T_Item 1) (nav_demo (T_Item 3)) = nav_demo (T_Item 1)"
    by (simp add: focus_def nav_demo_def)
  with key_down_equiv [OF o] i o show ?thesis
    by (simp add: cyc_next_def nav_demo_def)
qed

text \<open>
  C34. On an open panel, ArrowUp on one of the items focuses exactly the reference
  predecessor: the previous item, or the last one from the first item.
\<close>

theorem key_up_equiv:
  assumes "open_class s" and "active s \<in> set (arrow_items (panel s))"
  shows "key_handler ''ArrowUp'' s = Inr (focus (cyc_prev (arrow_items (panel s)) (active s)) s)"
proof -
  have "arrow_items (panel s) \<noteq> []" using assms(2) by auto
  with assms show ?thesis by (simp add: key_handler_up cyc_prev_index)
qed

theorem key_up_equiv_witness:
  "open_class (nav_demo (T_Item 1))
   \<and> T_Item 1 \<in> set (arrow_items (panel (nav_demo (T_Item 1))))
   \<and> key_handler ''ArrowUp'' (nav_demo (T_Item 1)) = Inr (nav_demo (T_Item 3))"
proof -
  have i: "arrow_items (panel (nav_demo (T_Item 1))) = [T_Item 1, T_Item 2, T_Item 3]"
    by (simp add: nav_demo_def demo_defs arrow_items_def dom_query_defs focusable_def)
  have o: "open_class (nav_demo (T_Item 1))" by (simp add: nav_demo_def)
  have "active (nav_demo (T_Item 1)) = T_Item 1" by (simp add: nav_demo_def)
  then have a: "active (nav_demo (T_Item 1)) \<in> set (arrow_items (panel (nav_demo (T_Item 1))))"
    by (simp only: i) simp
  have "focus (T_Item 3) (nav_demo (T_Item 1)) = nav_demo (T_Item 3)"
    by (simp add: focus_def nav_demo_def)
  with key_up_equiv [OF o a] i o show ?thesis
    by (simp add: cyc_prev_def nav_demo_def)
qed

end
