(* ===== verification/Spec2Isabelle.thy ===== *)
theory Spec2Isabelle
  imports Abstract Traversal Loading Focus Cyclic
begin

text \<open>
  \<^bold>\<open>The header dropdown widget of \<^verbatim>\<open>src/header.js\<close>, verified.\<close>

  \<^emph>\<open>The program.\<close> One immediately invoked function exposes \<^verbatim>\<open>window.initHeader\<close>.
  Its first call (guarded by the global \<^verbatim>\<open>window._headerInitDone\<close>) looks up the trigger
  \<^verbatim>\<open>#topMenuBtn\<close> and the panel \<^verbatim>\<open>#topMenuDropdown\<close> and, when both exist, registers
  a click and a keydown listener on the trigger, a click listener on the panel and an
  empty resize listener on \<^verbatim>\<open>window\<close>. The first activation of the trigger fetches
  \<^verbatim>\<open>menu.html\<close> (\<^verbatim>\<open>loadMenuHtml\<close>) into the panel, then opens it (\<^verbatim>\<open>openMenu\<close>);
  an open panel registers \<^verbatim>\<open>outsideClickHandler\<close> and \<^verbatim>\<open>keyHandler\<close> on
  \<^verbatim>\<open>document\<close>, and \<^verbatim>\<open>closeMenu\<close> removes them. The components interact through one
  shared state (the page) and the browser's event dispatch.

  \<^emph>\<open>The model.\<close> A shallow embedding, one theory per part:
  \<^item> \<open>Prelude\<close>: JavaScript's \<^verbatim>\<open>%\<close> (\<open>js_rem\<close>, truncating, \<open>NaN\<close> as
    \<open>None\<close>), array reads (\<open>js_at\<close>, \<^verbatim>\<open>undefined\<close> as \<open>None\<close>) and
    \<^verbatim>\<open>indexOf\<close> (\<open>index_of\<close>), with their lemmas.
  \<^item> \<open>Dom\<close>: the panel's content as a list of elements in document order
    (\<open>elem\<close>, \<open>panel\<close>), the selectors the code uses (\<open>query_focusables\<close>,
    \<open>query_first_focusable\<close>, \<open>query_anchors\<close>, \<open>has_ul\<close>, \<open>closest_anchor\<close>,
    \<open>panel_contains\<close>), and the record \<open>page\<close>: the host markup, the flag
    \<^verbatim>\<open>_headerInitDone\<close> (\<open>init_done\<close>), the closure variable \<^verbatim>\<open>menuLoaded\<close>
    (\<open>menu_loaded\<close>), \<^verbatim>\<open>aria-expanded\<close>, the \<^verbatim>\<open>open\<close> class, the panel's content,
    \<^verbatim>\<open>document.activeElement\<close>, the listeners on \<^verbatim>\<open>document\<close>, the suspended
    continuations, the requests issued and the console.
  \<^item> \<open>Loader\<close>: \<^verbatim>\<open>loadMenuHtml\<close> (lines 16--43) split at its \<^verbatim>\<open>await\<close>:
    \<open>load_fetch_start\<close> issues the request, \<open>load_finish\<close> handles the answer
    (\<open>try_load\<close> gives every \<^verbatim>\<open>throw\<close> of the \<^verbatim>\<open>try\<close> block as an \<open>Inl\<close>,
    \<open>load_failure\<close> is the \<^verbatim>\<open>catch\<close>, \<open>load_success\<close> the rest, with
    \<open>annotate_links\<close> for lines 25--30).
  \<^item> \<open>Menu\<close>: \<^verbatim>\<open>openMenu\<close>, \<^verbatim>\<open>closeMenu\<close>, \<^verbatim>\<open>outsideClickHandler\<close>
    (\<open>open_menu\<close>, \<open>close_menu\<close>, \<open>outside_click_handler\<close>).
  \<^item> \<open>Keynav\<close>: \<^verbatim>\<open>keyHandler\<close> (\<open>key_handler\<close>), with its result an
    \<open>js_error + page\<close> so that \<^verbatim>\<open>undefined.focus()\<close> would be visible.
  \<^item> \<open>Events\<close>: \<^verbatim>\<open>initHeader\<close> (\<open>init_header\<close>), the trigger's and the panel's
    listeners (\<open>btn_click_handler\<close> with its continuation \<open>resume_click\<close> /
    \<open>fetch_done\<close>, \<open>btn_keydown_handler\<close>, \<open>dropdown_click_handler\<close>), the
    dispatch of a click or keydown along its path (\<open>dispatch_click\<close>,
    \<open>dispatch_key\<close>: the target's listeners first, then those registered on
    \<^verbatim>\<open>document\<close> at that moment), a key press with the browser's default action
    (\<open>key_press\<close>: Enter on a link or button and Space on a button click it unless
    \<open>btn_prevents\<close>, the trigger listener's \<^verbatim>\<open>preventDefault()\<close>, cancelled it; the
    browser fires Space's activation on keyup, which the model folds into the keydown's
    step, as no handler of the program listens to keyup and cancelling the keydown cancels
    the activation), the
    environment's events, the deterministic
    \<open>step\<close>, \<open>run\<close> over an event list, and \<open>reachable\<close> pages (an
    \<^theory_text>\<open>inductive\<close> set closed under \<open>step\<close> from any freshly loaded host page).
  \<^item> \<open>Invariants\<close>: the invariant \<open>widget_inv\<close> and its preservation by every
    handler, the handlers' effect on invariant pages, and \<open>keeps_loaded\<close> (the loaded
    flag stays and no request is issued once loaded).
  \<^item> \<open>Abstract\<close>: the specification's menu state machine (\<open>spec_step\<close> on a
    \<open>menu_spec\<close>: open, loaded, loads in flight), the abstraction \<open>abs_menu\<close> of a
    page, and the simulation \<open>menu_sim\<close>: every \<open>step\<close> of an invariant page is one
    abstract transition; \<open>spec_reach_open_loaded\<close> is the abstract machine's safety.
  \<^item> \<open>Requests\<close>: the effect of every handler on the request count, the pending
    continuations and the loaded flag (\<open>same_counts\<close>, \<open>new_request\<close>); the
    invariant \<open>req_inv\<close> (before loading completes every request is pending); runs
    without a re-activation during a load (\<open>serial\<close>) issue at most one request;
    \<open>drain\<close> answers every outstanding request (a \<open>while_option\<close> loop, which ends
    by the measure \<open>pending\<close>).
  \<^item> \<open>Loading\<close>: the console and the panel across the handlers; the bound
    \<open>console_inv\<close> (console entries plus requests in flight at most the requests issued)
    and \<open>loading_inv\<close> (the loading placeholder stays while a load is in flight).
  \<^item> \<open>Focus\<close>: \<open>focus_ok\<close>, the focus is on a live, focusable element of the panel
    (or the trigger, the panel when focusable, the body), kept by every operation.
  \<^item> \<open>Cyclic\<close>: a list-based reference for the traversal (\<open>cyc_next\<close>,
    \<open>cyc_prev\<close>, walking to the first occurrence like \<^verbatim>\<open>indexOf\<close>) and its
    equivalence with the code's \<^verbatim>\<open>%\<close> arithmetic.
  \<^item> \<open>Traversal\<close>: arrow keys dispatched to a focused item of an open panel, with the
    positions computed on natural numbers (\<open>dispatch_down_item\<close>,
    \<open>dispatch_up_item\<close>).
  This theory holds the properties that span the components.

  \<^emph>\<open>Concurrency.\<close> JavaScript runs one callback at a time; the only suspension is the
  trigger's click listener waiting on \<^verbatim>\<open>fetch\<close>. Each suspended listener is one unit
  of \<open>pending\<close>; the network's answer is the event \<open>Fetch_Done r\<close>, which the
  environment may deliver after any other events, so every interleaving of user events
  with the answers is a run of \<open>step\<close>. The two \<^verbatim>\<open>await\<close>s of
  \<^verbatim>\<open>loadMenuHtml\<close> (\<^verbatim>\<open>fetch\<close> and \<^verbatim>\<open>res.text()\<close>) are one event: no other code
  of the widget depends on the state between them.

  \<^emph>\<open>Results.\<close> The claims are numbered C1--C40:
  \<^item> invariants of every reachable page: \<^verbatim>\<open>aria-expanded\<close> is \<^verbatim>\<open>"true"\<close> exactly
    when the panel has its \<^verbatim>\<open>open\<close> class (C1), and the \<^verbatim>\<open>document\<close> listeners are
    registered exactly while it is open, so repeated cycles never accumulate them (C2);
  \<^item> after a first \<^verbatim>\<open>initHeader()\<close>, a later call changes nothing whatever happened
    in between (C3), and a page without the markup stays inert (C18);
  \<^item> loading: no request once the menu is loaded (C4), one request for a first
    activation answered before the next one (C5), the failure, empty and success paths
    (C6--C8, C21);
  \<^item> closing: Escape, an outside click, a link click (or Enter on a focused link, through
    its default click) and the trigger close the panel and
    return the focus to the trigger (C9--C11, C22); the trigger opens a loaded panel
    (C23); after a failed load the focus does not enter a panel that cannot take it
    (C24);
  \<^item> keyboard traversal: the handler never throws (C12), wraps both ways (C13, C14);
    repeated ArrowDowns visit every item in document order (C28), and ArrowUp undoes
    ArrowDown (C29); a closed panel ignores the arrow keys (C32); ArrowDown is the
    reference successor everywhere and ArrowUp the reference predecessor on the items
    (C33, C34); the focus is always on a live element (C35);
  \<^item> behaviours the specification does not describe: ArrowUp from outside the items
    lands on the second-to-last one (C15); ArrowDown on a closed trigger ends on the
    second item, since the same keydown reaches the \<^verbatim>\<open>keyHandler\<close> that the synthetic
    click just registered (C16), and so does ArrowDown on the trigger of an open panel
    (C37), while Enter ends on the first (C17); two activations
    before the answer issue two requests (C19), and a late answer reopens a panel the
    user closed meanwhile (C20); a call of \<^verbatim>\<open>initHeader\<close> made before the markup
    exists disables the widget for good, since the flag is set before the elements are
    looked up (C25);
  \<^item> refinement: every event is one transition of the specification's state machine
    (C26), so an open panel is always a loaded one (C27);
  \<^item> requests and progress: a run in which the trigger is not re-activated during a load
    issues at most one request (C30); one activation and one answer of the network
    always leave a bound panel open and loaded (C31); answering every outstanding request
    terminates with every suspended listener completed (C36); the console holds at most
    one entry per answered request (C38); a load in flight keeps the loading placeholder
    up (C40);
  \<^item> an open/close cycle by the trigger gives back the page it started from, up to
    \<^verbatim>\<open>aria-expanded\<close> and the focus (C39).

  \<^emph>\<open>Not modelled.\<close> Listener registration is recorded by the flag \<open>bound\<close>
  and the set \<open>doc_listeners\<close>, so a second registration of the same listener is not
  representable; the guard of line 7 is shown by its observable effect instead (C3: a
  later \<^verbatim>\<open>initHeader()\<close> changes nothing). The HTML parser (a response body is given as the element list the
  browser builds from it; \<^verbatim>\<open>trim()\<close> does not change that list); URL resolution of
  \<^verbatim>\<open>menu.html\<close> and the \<^verbatim>\<open>no-store\<close> cache mode (a request is counted, not
  described); the arrow keys' default scrolling, which \<^verbatim>\<open>keyHandler\<close> cancels and which
  changes no state of the widget; the navigation that follows a link's click; CSS; focusability beyond the code's selector (every element
  it matches is taken to accept \<^verbatim>\<open>focus()\<close>). The element tree of the panel is
  reduced to a list in document order with each element's nearest enclosing anchor:
  the selectors, \<^verbatim>\<open>contains\<close>, \<^verbatim>\<open>closest('a')\<close> and the path of a keydown read no
  more of it; an anchor around the panel itself (host markup outside the widget) is not
  represented, so \<^verbatim>\<open>closest('a')\<close> is taken to stop at the panel. No loop of the program is unbounded,
  so no fuel is needed: every function of the model is total and structural; the only
  loop that is not, the event loop delivering the network's answers (\<open>drain\<close>), is a
  \<open>while_option\<close> whose termination is proved (C36).
\<close>

subsection \<open>Sample pages\<close>

text \<open>
  A host page with both elements and an empty panel, and the pages that a few events
  make of it. The witnesses evaluate on them.
\<close>

definition demo_host :: page where
  "demo_host = fresh_page True True False None (Fragment [])"

definition demo_ok :: fetch_result where
  "demo_ok = Got (Response 200 ''OK'' (Some demo_menu))"

definition demo_bound :: page where
  "demo_bound = run demo_host [Init]"

definition demo_open :: page where
  "demo_open = run demo_host [Init, Click T_Btn, Fetch_Done demo_ok]"

definition demo_closed :: page where
  "demo_closed = run demo_host [Init, Click T_Btn, Fetch_Done demo_ok, Click T_Outside]"

definition demo_bare :: page where
  "demo_bare = run (fresh_page False True False None (Fragment [])) [Init, Click T_Btn]"

lemmas eval_defs = demo_host_def demo_ok_def demo_bound_def demo_open_def demo_closed_def
  demo_bare_def fresh_page_def handler_defs loader_defs menu_defs demo_defs resp_ok_def
  Let_def dom_query_defs focusable_def is_anchor_def annotate_links_def annotate_link_def
  set_panel_def focus_def focus_panel_def key_handler_def arrow_items_def next_pos_def
  prev_pos_def js_rem_def js_at_def esc_on_path_def

lemma demo_host_reachable: "reachable demo_host"
  unfolding demo_host_def by (rule reachable.start) simp

lemma demo_reachable:
  "reachable demo_bound" "reachable demo_open" "reachable demo_closed"
  by (simp_all only: demo_bound_def demo_open_def demo_closed_def
      reachable_run [OF demo_host_reachable])

lemma demo_bare_reachable: "reachable demo_bare"
  unfolding demo_bare_def by (rule reachable_run, rule reachable.start) simp

lemma run_init_done: "init_done s \<Longrightarrow> run s (replicate k Init) = s"
  by (induction k) (simp_all add: init_header_def)

lemma init_done_dispatch_click: "init_done (dispatch_click t s) = init_done s"
  by (simp add: dispatch_click_def Let_def btn_click_handler_def dropdown_click_handler_def
      outside_click_handler_def)

lemma init_done_key_result: "init_done (case key_handler k s of Inl _ \<Rightarrow> s | Inr s' \<Rightarrow> s') = init_done s"
  by (auto split: sum.splits dest: key_handler_results)

lemma init_done_dispatch_key: "init_done (dispatch_key k s) = init_done s"
  by (simp add: dispatch_key_def Let_def btn_keydown_handler_def init_done_dispatch_click
      init_done_key_result split: target.splits option.splits)

lemma init_done_step: "init_done s \<Longrightarrow> init_done (step s e)"
proof (cases e)
  case (Key k)
  then show "init_done s \<Longrightarrow> init_done (step s e)"
    using key_press_induct [where P = "\<lambda>s'. init_done s' = init_done s"]
      init_done_dispatch_key [of k s] init_done_dispatch_click [of "active s" s]
    by simp
qed (simp_all add: init_done_dispatch_click fetch_done_def resume_click_def focus_move_def)


lemma init_done_run: "init_done s \<Longrightarrow> init_done (run s es)"
  by (induction es arbitrary: s) (simp_all add: init_done_step)

lemma loaded_bound: "widget_inv s \<Longrightarrow> menu_loaded s \<Longrightarrow> bound s"
  using widget_inv_unbound by blast

text \<open>Two activations of an unloaded trigger before any answer.\<close>

lemma run_two_clicks_unloaded:
  assumes "widget_inv s" and "bound s" and "\<not> menu_loaded s" and "\<not> open_class s"
  shows "run s [Click T_Btn, Click T_Btn] =
           load_fetch_start (set_panel (Note Loading)
             (load_fetch_start (set_panel (Note Loading) s)))"
proof -
  let ?s1 = "load_fetch_start (set_panel (Note Loading) s)"
  have s1: "step s (Click T_Btn) = ?s1"
    using dispatch_click_btn_unloaded [OF assms(1,4,2,3)] by simp
  have "widget_inv ?s1" using assms(1,2) by (simp add: inv_rules)
  moreover have "\<not> open_class ?s1" "bound ?s1" "\<not> menu_loaded ?s1" using assms by simp_all
  ultimately have "step ?s1 (Click T_Btn) = load_fetch_start (set_panel (Note Loading) ?s1)"
    using dispatch_click_btn_unloaded by simp
  with s1 show ?thesis by simp
qed

text \<open>
  A keydown on the closed trigger of a loaded menu with one of the keys that open it:
  the synthetic click opens the panel and the first item gets the focus.
\<close>

lemma btn_keydown_opens_loaded:
  assumes "widget_inv s" and "\<not> open_class s" and "menu_loaded s"
    and "query_focusables (panel s) = e # rest"
    and "k = ''ArrowDown'' \<or> k = ''Enter'' \<or> k = '' ''"
  shows "btn_keydown_handler k s = focus (T_Item (eid e)) (open_menu s)"
proof -
  have "bound s" using assms(1,3) by (rule loaded_bound)
  then have "dispatch_click T_Btn s = open_menu s"
    using dispatch_click_btn_loaded assms(1-3) by blast
  moreover have "query_first_focusable (panel s) = Some e"
    using assms(4) by (simp add: query_first_focusable_hd)
  ultimately show ?thesis using assms(2,5) by (auto simp: btn_keydown_handler_def)
qed

lemma dispatch_key_btn_opens_loaded:
  assumes "widget_inv s" and "\<not> open_class s" and "menu_loaded s" and "active s = T_Btn"
    and "query_focusables (panel s) = e # rest"
    and "k = ''ArrowDown'' \<or> k = ''Enter'' \<or> k = '' ''"
  shows "dispatch_key k s =
           (case key_handler k (focus (T_Item (eid e)) (open_menu s)) of
              Inl _ \<Rightarrow> focus (T_Item (eid e)) (open_menu s) | Inr s2 \<Rightarrow> s2)"
proof -
  have "bound s" using assms(1,3) by (rule loaded_bound)
  with btn_keydown_opens_loaded [OF assms(1-3,5,6)] assms(4) show ?thesis
    by (simp add: dispatch_key_def Let_def)
qed

lemma key_down_from_first:
  assumes "open_class s" and "query_focusables (panel s) = e # rest"
    and "2 \<le> length (arrow_items (panel s))"
  shows "key_handler ''ArrowDown'' (focus (T_Item (eid e)) s) =
           Inr (focus (arrow_items (panel s) ! 1) (focus (T_Item (eid e)) s))"
proof -
  let ?s1 = "focus (T_Item (eid e)) s"
  have items: "arrow_items (panel ?s1) = T_Item (eid e) # map (\<lambda>e. T_Item (eid e)) rest"
    using assms(2) by (simp add: arrow_items_def)
  have n: "(1::int) mod int (length (arrow_items (panel ?s1))) = 1"
    using assms(3) by (simp add: arrow_items_def)
  show ?thesis using key_handler_down [of ?s1] items n assms(1) by simp
qed

subsection \<open>Invariants of the page\<close>

text \<open>
  C1. In every reachable page the trigger's \<^verbatim>\<open>aria-expanded\<close> is \<^verbatim>\<open>"true"\<close> exactly
  when the panel carries the \<^verbatim>\<open>open\<close> class.
\<close>

theorem reachable_aria_sync:
  "reachable s \<Longrightarrow> (aria_expanded s = Some ''true'') = open_class s"
  by (simp add: widget_inv_aria reachable_widget_inv)

theorem reachable_aria_sync_witness:
  "reachable demo_open \<and> (aria_expanded demo_open = Some ''true'') = open_class demo_open"
  using reachable_aria_sync [OF demo_reachable(2)] demo_reachable(2) by simp

text \<open>
  C2. In every reachable page the two listeners on \<^verbatim>\<open>document\<close> are registered exactly
  while the panel is open: after any number of open/close cycles a closed panel leaves
  none behind.
\<close>

theorem reachable_listeners_match_open:
  "reachable s \<Longrightarrow> doc_listeners s = (if open_class s then {Outside_Click, Key_Handler} else {})"
  using reachable_widget_inv widget_inv_sync sync_def by blast

theorem reachable_listeners_match_open_witness:
  "reachable demo_closed \<and> doc_listeners demo_closed = {}"
proof -
  have "\<not> open_class demo_closed" by (simp add: eval_defs)
  with reachable_listeners_match_open [OF demo_reachable(3)] demo_reachable(3) show ?thesis
    by simp
qed

text \<open>
  C3. Once \<^verbatim>\<open>initHeader()\<close> has been called, a later call changes nothing, whatever
  events happened in between: the flag set at line 8 makes it return at line 7. Without
  that flag a later call would bind the widget afresh with \<^verbatim>\<open>menuLoaded = false\<close>,
  forgetting content already loaded.
\<close>

theorem init_header_runs_once: "run s (Init # es @ [Init]) = run s (Init # es)"
proof -
  have "init_done (run (init_header s) es)" by (rule init_done_run) simp
  then show ?thesis by (simp add: run_append init_header_def)
qed

subsection \<open>Loading\<close>

text \<open>
  C4. Once the menu is loaded (successfully or not), no sequence of events issues another
  request, and the loaded flag is never reset.
\<close>

theorem loaded_never_refetches:
  assumes "reachable s" and "menu_loaded s"
  shows "menu_loaded (run s es) \<and> requests (run s es) = requests s"
  using keeps_loaded_run [OF reachable_widget_inv [OF assms(1)], of es] assms(2)
  by (simp add: keeps_loaded_def)

theorem loaded_never_refetches_witness:
  "reachable demo_open \<and> menu_loaded demo_open \<and>
   requests (run demo_open [Click T_Btn, Click T_Btn, Key ''Escape'']) = requests demo_open"
proof -
  have "menu_loaded demo_open" by (simp add: eval_defs)
  with loaded_never_refetches [OF demo_reachable(2) this, of "[Click T_Btn, Click T_Btn, Key ''Escape'']"]
    demo_reachable(2) show ?thesis by simp
qed

text \<open>
  C5. The first activation of a bound, unloaded, closed trigger issues exactly one
  request; once it is answered, whatever the answer, the menu is loaded and open.
\<close>

theorem first_open_single_request:
  assumes "reachable s" and "bound s" and "\<not> menu_loaded s" and "\<not> open_class s"
  shows "requests (run s [Click T_Btn, Fetch_Done r]) = Suc (requests s)
         \<and> menu_loaded (run s [Click T_Btn, Fetch_Done r])
         \<and> open_class (run s [Click T_Btn, Fetch_Done r])"
proof -
  have inv: "widget_inv s" using assms(1) by (rule reachable_widget_inv)
  have "step s (Click T_Btn) = load_fetch_start (set_panel (Note Loading) s)"
    using dispatch_click_btn_unloaded [OF inv assms(4,2,3)] by simp
  then show ?thesis by (simp add: fetch_done_pending)
qed

theorem first_open_single_request_witness:
  "reachable demo_bound \<and> bound demo_bound \<and> \<not> menu_loaded demo_bound \<and> \<not> open_class demo_bound
   \<and> requests (run demo_bound [Click T_Btn, Fetch_Done demo_ok]) = 1"
proof -
  have h: "bound demo_bound" "\<not> menu_loaded demo_bound" "\<not> open_class demo_bound"
    "requests demo_bound = 0"
    by (simp_all add: eval_defs)
  with first_open_single_request [OF demo_reachable(1) h(1-3), of demo_ok] demo_reachable(1)
  show ?thesis by simp
qed

text \<open>
  C6. When a request fails (transport error, a status outside 200--299, or an unreadable
  body), its answer shows the ``Failed to load menu'' placeholder, logs the error, marks
  the menu loaded (so it is never retried) and opens the panel.
\<close>

theorem load_failure_placeholder:
  assumes "0 < pending s" and "try_load r = Inl err"
  shows "panel (fetch_done r s) = Note Load_Failed \<and> menu_loaded (fetch_done r s)
         \<and> open_class (fetch_done r s) \<and> console (fetch_done r s) = console s @ [err]"
  using assms by (simp add: fetch_done_pending load_finish_def load_failure_def)

theorem load_failure_placeholder_witness:
  "0 < pending (demo_bound\<lparr>pending := 1\<rparr>) \<and> try_load Network_Error = Inl Fetch_Failed
   \<and> panel (fetch_done Network_Error (demo_bound\<lparr>pending := 1\<rparr>)) = Note Load_Failed"
  using load_failure_placeholder [of "demo_bound\<lparr>pending := 1\<rparr>" Network_Error Fetch_Failed]
  by simp

text \<open>
  C7. A successful answer whose content has neither a list nor a link is replaced by the
  ``No navigation found.'' placeholder; the menu is then loaded and open.
\<close>

theorem empty_fragment_placeholder:
  assumes "0 < pending s" and "try_load r = Inr html"
    and "\<not> list_ex (\<lambda>e. tag e = Tag_Ul) html" and "filter is_anchor html = []"
  shows "panel (fetch_done r s) = Note No_Nav \<and> menu_loaded (fetch_done r s)
         \<and> open_class (fetch_done r s)"
  using assms
  by (simp add: fetch_done_pending load_finish_def load_success_def has_ul_def
      query_anchors_def annotate_links_has_ul annotate_links_anchors)

theorem empty_fragment_placeholder_witness:
  "0 < pending (demo_bound\<lparr>pending := 1\<rparr>)
   \<and> try_load (Got (Response 200 ''OK'' (Some []))) = Inr []
   \<and> \<not> list_ex (\<lambda>e. tag e = Tag_Ul) [] \<and> filter is_anchor [] = []
   \<and> panel (fetch_done (Got (Response 200 ''OK'' (Some []))) (demo_bound\<lparr>pending := 1\<rparr>))
       = Note No_Nav"
proof -
  have "try_load (Got (Response 200 ''OK'' (Some []))) = Inr []" by (simp add: resp_ok_def)
  with empty_fragment_placeholder [of "demo_bound\<lparr>pending := 1\<rparr>" _ "[]"] show ?thesis by simp
qed

text \<open>
  C8. A successful answer with a list or a link becomes the panel's content, and every
  link in it carries \<^verbatim>\<open>role="menuitem"\<close> and the Escape listener.
\<close>

theorem load_success_annotates_links:
  assumes "0 < pending s" and "try_load r = Inr html"
    and "list_ex (\<lambda>e. tag e = Tag_Ul) html \<or> filter is_anchor html \<noteq> []"
  shows "panel (fetch_done r s) = Fragment (annotate_links html)
         \<and> (\<forall>e \<in> set (query_anchors (panel (fetch_done r s))).
               role e = Some ''menuitem'' \<and> keydown_esc e)"
proof -
  have p: "panel (fetch_done r s) = Fragment (annotate_links html)"
    using assms
    by (auto simp: fetch_done_pending load_finish_def load_success_def has_ul_def
        query_anchors_def annotate_links_has_ul annotate_links_anchors)
  have "\<forall>e \<in> set (filter is_anchor (annotate_links html)).
          role e = Some ''menuitem'' \<and> keydown_esc e"
    by (auto simp: annotate_links_anchors annotate_link_anchor)
  with p show ?thesis by (simp add: query_anchors_def)
qed

theorem load_success_annotates_links_witness:
  "0 < pending (demo_bound\<lparr>pending := 1\<rparr>) \<and> try_load demo_ok = Inr demo_menu
   \<and> list_ex (\<lambda>e. tag e = Tag_Ul) demo_menu
   \<and> panel (fetch_done demo_ok (demo_bound\<lparr>pending := 1\<rparr>)) = Fragment (annotate_links demo_menu)"
proof -
  have h: "try_load demo_ok = Inr demo_menu" and u: "list_ex (\<lambda>e. tag e = Tag_Ul) demo_menu"
    by (simp_all add: demo_ok_def resp_ok_def demo_defs)
  then have "list_ex (\<lambda>e. tag e = Tag_Ul) demo_menu \<or> filter is_anchor demo_menu \<noteq> []" by simp
  with load_success_annotates_links [of "demo_bound\<lparr>pending := 1\<rparr>", OF _ h] h u show ?thesis
    by simp
qed

subsection \<open>Closing\<close>

text \<open>
  C9. Escape while the panel is open closes it, whatever has the focus: the panel loses
  its \<^verbatim>\<open>open\<close> class, the focus returns to the trigger and no listener stays on
  \<^verbatim>\<open>document\<close>.
\<close>

theorem escape_closes_menu:
  assumes "reachable s" and "open_class s"
  shows "\<not> open_class (step s (Key ''Escape'')) \<and> active (step s (Key ''Escape'')) = T_Btn
         \<and> doc_listeners (step s (Key ''Escape'')) = {}"
proof -
  have inv: "widget_inv s" using assms(1) by (rule reachable_widget_inv)
  then have "doc_listeners s - {Outside_Click, Key_Handler} = {}"
    using assms(2) by (simp add: widget_inv_def sync_def)
  with dispatch_key_escape_open [OF inv assms(2)] show ?thesis by simp
qed

theorem escape_closes_menu_witness:
  "reachable demo_open \<and> open_class demo_open
   \<and> \<not> open_class (step demo_open (Key ''Escape''))"
proof -
  have "open_class demo_open" by (simp add: eval_defs)
  with escape_closes_menu [OF demo_reachable(2) this] demo_reachable(2) show ?thesis by simp
qed

text \<open>
  C10. A click outside both the trigger and the panel closes an open panel and returns
  the focus to the trigger.
\<close>

theorem outside_click_closes_menu:
  assumes "reachable s" and "open_class s"
  shows "\<not> open_class (step s (Click T_Outside)) \<and> active (step s (Click T_Outside)) = T_Btn
         \<and> doc_listeners (step s (Click T_Outside)) = {}"
proof -
  have inv: "widget_inv s" using assms(1) by (rule reachable_widget_inv)
  then have "doc_listeners s - {Outside_Click, Key_Handler} = {}"
    using assms(2) by (simp add: widget_inv_def sync_def)
  with dispatch_click_outside_open [OF inv assms(2)] show ?thesis by simp
qed

theorem outside_click_closes_menu_witness:
  "reachable demo_open \<and> open_class demo_open
   \<and> \<not> open_class (step demo_open (Click T_Outside))"
proof -
  have "open_class demo_open" by (simp add: eval_defs)
  with outside_click_closes_menu [OF demo_reachable(2) this] demo_reachable(2) show ?thesis
    by simp
qed

text \<open>
  C11. A click on a link of the open panel (or inside one) closes the panel, letting the
  navigation proceed; so does Enter on a focused link, whose default action clicks it
  (\<^verbatim>\<open>keyHandler\<close> does not cancel Enter).
\<close>

theorem link_click_closes_menu:
  assumes "reachable s" and "open_class s" and "closest_anchor (panel s) t = Some a"
    and "ev = Click t \<or> (ev = Key ''Enter'' \<and> active s = t \<and> key_activates ''Enter'' s)"
  shows "\<not> open_class (step s ev) \<and> active (step s ev) = T_Btn \<and> doc_listeners (step s ev) = {}"
proof -
  have inv: "widget_inv s" using assms(1) by (rule reachable_widget_inv)
  have "step s ev = dispatch_click t s"
  proof (cases "ev = Click t")
    case False
    with assms(4) have ev: "ev = Key ''Enter''" and a: "active s = t"
      and k: "key_activates ''Enter'' s" by simp_all
    have "t \<noteq> T_Btn" using assms(3) by auto
    then have "\<not> btn_prevents ''Enter'' s" by (simp add: btn_prevents_def a)
    with k a ev show ?thesis by (simp add: key_press_activation)
  qed simp
  moreover have "doc_listeners s - {Outside_Click, Key_Handler} = {}"
    using inv assms(2) by (simp add: widget_inv_def sync_def)
  ultimately show ?thesis using dispatch_click_link_open [OF inv assms(2,3)] by simp
qed

theorem link_click_closes_menu_witness:
  "reachable (step demo_open (Focus_Move (T_Item 2)))
   \<and> open_class (step demo_open (Focus_Move (T_Item 2)))
   \<and> closest_anchor (panel (step demo_open (Focus_Move (T_Item 2)))) (T_Item 2) = Some 2
   \<and> active (step demo_open (Focus_Move (T_Item 2))) = T_Item 2
   \<and> \<not> open_class (step (step demo_open (Focus_Move (T_Item 2))) (Key ''Enter''))"
proof -
  let ?s = "step demo_open (Focus_Move (T_Item 2))"
  have r: "reachable ?s" using demo_reachable(2) by (rule reachable.step)
  have h: "open_class ?s" "closest_anchor (panel ?s) (T_Item 2) = Some 2"
    "active ?s = T_Item 2" "key_activates ''Enter'' ?s"
    by (simp_all add: eval_defs lookup_elem_def can_focus.simps key_activates_def)
  then have "Key ''Enter'' = Click (T_Item 2)
      \<or> (Key ''Enter'' = Key ''Enter'' \<and> active ?s = T_Item 2 \<and> key_activates ''Enter'' ?s)"
    by simp
  with link_click_closes_menu [OF r h(1,2) this] r h show ?thesis by simp
qed

text \<open>
  C22. Activating the trigger of an open panel closes it.
\<close>

theorem trigger_click_closes_open:
  assumes "reachable s" and "open_class s"
  shows "\<not> open_class (step s (Click T_Btn)) \<and> active (step s (Click T_Btn)) = T_Btn
         \<and> doc_listeners (step s (Click T_Btn)) = {}"
proof -
  have inv: "widget_inv s" using assms(1) by (rule reachable_widget_inv)
  then have "doc_listeners s - {Outside_Click, Key_Handler} = {}"
    using assms(2) by (simp add: widget_inv_def sync_def)
  with dispatch_click_btn_open [OF inv assms(2)] show ?thesis by simp
qed

theorem trigger_click_closes_open_witness:
  "reachable demo_open \<and> open_class demo_open \<and> \<not> open_class (step demo_open (Click T_Btn))"
proof -
  have "open_class demo_open" by (simp add: eval_defs)
  with trigger_click_closes_open [OF demo_reachable(2) this] demo_reachable(2) show ?thesis
    by simp
qed

text \<open>
  C23. Activating the trigger of a closed, loaded panel opens it at once, without a
  request: \<^verbatim>\<open>aria-expanded\<close> becomes \<^verbatim>\<open>"true"\<close> and both \<^verbatim>\<open>document\<close> listeners
  are registered.
\<close>

theorem trigger_click_opens_loaded:
  assumes "reachable s" and "\<not> open_class s" and "menu_loaded s"
  shows "open_class (step s (Click T_Btn)) \<and> aria_expanded (step s (Click T_Btn)) = Some ''true''
         \<and> doc_listeners (step s (Click T_Btn)) = {Outside_Click, Key_Handler}
         \<and> requests (step s (Click T_Btn)) = requests s"
proof -
  have inv: "widget_inv s" using assms(1) by (rule reachable_widget_inv)
  have "bound s" using inv assms(3) by (rule loaded_bound)
  with dispatch_click_btn_loaded [OF inv assms(2) _ assms(3)] closed_no_listeners [OF inv assms(2)]
  show ?thesis by simp
qed

theorem trigger_click_opens_loaded_witness:
  "reachable demo_closed \<and> \<not> open_class demo_closed \<and> menu_loaded demo_closed
   \<and> open_class (step demo_closed (Click T_Btn))"
proof -
  have h: "\<not> open_class demo_closed" "menu_loaded demo_closed" by (simp_all add: eval_defs)
  with trigger_click_opens_loaded [OF demo_reachable(3) h] demo_reachable(3) show ?thesis
    by simp
qed

subsection \<open>The trigger's keyboard listener\<close>

text \<open>
  C16. ArrowDown on the closed trigger of a loaded menu with at least two items opens the
  panel and leaves the focus on the second item, not the first: the trigger's listener
  opens the panel and focuses the first item, then the same keydown bubbles to
  \<^verbatim>\<open>document\<close>, where the synthetic click has just registered \<^verbatim>\<open>keyHandler\<close>,
  which moves the focus one further.
\<close>

theorem trigger_arrow_down_skips_first:
  assumes "reachable s" and "\<not> open_class s" and "menu_loaded s" and "active s = T_Btn"
    and "2 \<le> length (arrow_items (panel s))"
  shows "open_class (step s (Key ''ArrowDown''))
         \<and> active (step s (Key ''ArrowDown'')) = arrow_items (panel s) ! 1"
proof -
  have inv: "widget_inv s" using assms(1) by (rule reachable_widget_inv)
  from assms(5) obtain e rest where q: "query_focusables (panel s) = e # rest"
    by (cases "query_focusables (panel s)") (auto simp: arrow_items_def)
  have "key_handler ''ArrowDown'' (focus (T_Item (eid e)) (open_menu s)) =
      Inr (focus (arrow_items (panel s) ! 1) (focus (T_Item (eid e)) (open_menu s)))"
    using key_down_from_first [of "open_menu s" e rest] q assms(5) by simp
  with dispatch_key_btn_opens_loaded [OF inv assms(2-4) q] show ?thesis by simp
qed

theorem trigger_arrow_down_skips_first_witness:
  "reachable demo_closed \<and> \<not> open_class demo_closed \<and> menu_loaded demo_closed
   \<and> active demo_closed = T_Btn \<and> 2 \<le> length (arrow_items (panel demo_closed))
   \<and> active (step demo_closed (Key ''ArrowDown'')) = T_Item 2"
proof -
  have h: "\<not> open_class demo_closed" "menu_loaded demo_closed" "active demo_closed = T_Btn"
    "2 \<le> length (arrow_items (panel demo_closed))"
    by (simp_all add: eval_defs)
  have "arrow_items (panel demo_closed) ! 1 = T_Item 2" by (simp add: eval_defs)
  with trigger_arrow_down_skips_first [OF demo_reachable(3) h] demo_reachable(3) h
  show ?thesis by simp
qed

text \<open>
  C17. Enter on the closed trigger of a loaded menu opens the panel and focuses its first
  item; the listener's \<^verbatim>\<open>preventDefault()\<close> keeps the button's own default click
  from closing it again.
\<close>

theorem trigger_enter_focuses_first:
  assumes "reachable s" and "\<not> open_class s" and "menu_loaded s" and "active s = T_Btn"
    and "arrow_items (panel s) \<noteq> []"
  shows "open_class (step s (Key ''Enter''))
         \<and> active (step s (Key ''Enter'')) = hd (arrow_items (panel s))"
proof -
  have inv: "widget_inv s" using assms(1) by (rule reachable_widget_inv)
  from assms(5) obtain e rest where q: "query_focusables (panel s) = e # rest"
    by (cases "query_focusables (panel s)") (auto simp: arrow_items_def)
  have "key_handler ''Enter'' (focus (T_Item (eid e)) (open_menu s))
        = Inr (focus (T_Item (eid e)) (open_menu s))"
    by (simp add: key_handler_other)
  moreover have "key_press ''Enter'' s = dispatch_key ''Enter'' s"
    using assms(4) loaded_bound [OF inv assms(3)] by (rule key_press_btn)
  ultimately show ?thesis using dispatch_key_btn_opens_loaded [OF inv assms(2-4) q] q
    by (simp add: arrow_items_def)
qed

theorem trigger_enter_focuses_first_witness:
  "reachable demo_closed \<and> \<not> open_class demo_closed \<and> menu_loaded demo_closed
   \<and> active demo_closed = T_Btn \<and> arrow_items (panel demo_closed) \<noteq> []
   \<and> active (step demo_closed (Key ''Enter'')) = T_Item 1"
proof -
  have h: "\<not> open_class demo_closed" "menu_loaded demo_closed" "active demo_closed = T_Btn"
    "arrow_items (panel demo_closed) \<noteq> []"
    by (simp_all add: eval_defs)
  have "hd (arrow_items (panel demo_closed)) = T_Item 1" by (simp add: eval_defs)
  with trigger_enter_focuses_first [OF demo_reachable(3) h] demo_reachable(3) h
  show ?thesis by simp
qed

subsection \<open>Initialisation without the markup\<close>

text \<open>
  C18. On a page that lacks the trigger or the panel nothing is ever bound: no request,
  no listener on \<^verbatim>\<open>document\<close>, the panel never opens and the menu never loads.
\<close>

theorem missing_markup_inert:
  assumes "reachable s" and "\<not> has_btn s \<or> \<not> has_dropdown s"
  shows "\<not> bound s \<and> requests s = 0 \<and> \<not> open_class s \<and> doc_listeners s = {}
         \<and> \<not> menu_loaded s"
proof -
  have inv: "widget_inv s" using assms(1) by (rule reachable_widget_inv)
  with assms(2) have nb: "\<not> bound s" by (auto simp: widget_inv_def)
  with inv have "requests s = 0 \<and> \<not> open_class s \<and> \<not> menu_loaded s"
    using widget_inv_unbound by blast
  with nb inv closed_no_listeners show ?thesis by blast
qed

theorem missing_markup_inert_witness:
  "reachable demo_bare \<and> \<not> has_btn demo_bare \<and> requests demo_bare = 0"
proof -
  have "\<not> has_btn demo_bare" by (simp add: eval_defs)
  then have h: "\<not> has_btn demo_bare \<or> \<not> has_dropdown demo_bare" by simp
  with missing_markup_inert [OF demo_bare_reachable h] demo_bare_reachable \<open>\<not> has_btn demo_bare\<close>
  show ?thesis by simp
qed

subsection \<open>Activations racing the network\<close>

text \<open>
  C19. Two activations of the trigger before the first answer arrives issue two
  requests: the loaded flag is only set when an answer is handled.
\<close>

theorem double_click_double_request:
  assumes "reachable s" and "bound s" and "\<not> menu_loaded s" and "\<not> open_class s"
  shows "requests (run s [Click T_Btn, Click T_Btn]) = requests s + 2
         \<and> pending (run s [Click T_Btn, Click T_Btn]) = pending s + 2"
  using run_two_clicks_unloaded [OF reachable_widget_inv [OF assms(1)] assms(2-4)] by simp

theorem double_click_double_request_witness:
  "reachable demo_bound \<and> bound demo_bound \<and> \<not> menu_loaded demo_bound
   \<and> \<not> open_class demo_bound \<and> requests (run demo_bound [Click T_Btn, Click T_Btn]) = 2"
proof -
  have h: "bound demo_bound" "\<not> menu_loaded demo_bound" "\<not> open_class demo_bound"
    "requests demo_bound = 0"
    by (simp_all add: eval_defs)
  with double_click_double_request [OF demo_reachable(1) h(1-3)] demo_reachable(1)
  show ?thesis by simp
qed

text \<open>
  C20. After two activations before any answer, the first answer opens the panel; if the
  user then closes it with the trigger, the second answer opens it again.
\<close>

theorem late_completion_reopens:
  assumes "reachable s" and "bound s" and "\<not> menu_loaded s" and "\<not> open_class s"
  shows "\<not> open_class (run s [Click T_Btn, Click T_Btn, Fetch_Done r1, Click T_Btn])
         \<and> open_class (run s [Click T_Btn, Click T_Btn, Fetch_Done r1, Click T_Btn, Fetch_Done r2])"
proof -
  have inv: "widget_inv s" using assms(1) by (rule reachable_widget_inv)
  define s2 where "s2 = run s [Click T_Btn, Click T_Btn]"
  have p2: "pending s2 = Suc (Suc (pending s))"
    using run_two_clicks_unloaded [OF inv assms(2-4)] by (simp add: s2_def)
  have i2: "widget_inv s2" unfolding s2_def by (rule inv_run [OF inv])
  define s3 where "s3 = step s2 (Fetch_Done r1)"
  have o3: "open_class s3" and p3: "0 < pending s3"
    using p2 by (simp_all add: s3_def fetch_done_pending)
  have i3: "widget_inv s3" unfolding s3_def by (rule inv_step [OF i2])
  define s4 where "s4 = step s3 (Click T_Btn)"
  have s4: "s4 = close_menu s3" using dispatch_click_btn_open [OF i3 o3] by (simp add: s4_def)
  then have "\<not> open_class s4" and "0 < pending s4" using p3 by simp_all
  then have "open_class (step s4 (Fetch_Done r2))" by (simp add: fetch_done_pending)
  moreover have "run s [Click T_Btn, Click T_Btn, Fetch_Done r1, Click T_Btn] = s4"
    by (simp add: s2_def s3_def s4_def run_append [of s "[Click T_Btn, Click T_Btn]", simplified])
  ultimately show ?thesis using \<open>\<not> open_class s4\<close>
    by (simp add: run_append [of s "[Click T_Btn, Click T_Btn, Fetch_Done r1, Click T_Btn]", simplified])
qed

theorem late_completion_reopens_witness:
  "reachable demo_bound \<and> bound demo_bound \<and> \<not> menu_loaded demo_bound
   \<and> \<not> open_class demo_bound
   \<and> open_class (run demo_bound [Click T_Btn, Click T_Btn, Fetch_Done demo_ok, Click T_Btn,
                                 Fetch_Done Network_Error])"
proof -
  have h: "bound demo_bound" "\<not> menu_loaded demo_bound" "\<not> open_class demo_bound"
    by (simp_all add: eval_defs)
  with late_completion_reopens [OF demo_reachable(1) h, of demo_ok Network_Error]
    demo_reachable(1)
  show ?thesis by simp
qed

text \<open>
  C25. A call of \<^verbatim>\<open>initHeader()\<close> made before the host has inserted the trigger or
  the panel sets the global flag anyway, so once the markup is there a second call does
  nothing and the widget is never bound.
\<close>

theorem early_init_disables_widget:
  assumes "\<not> init_done s" and "\<not> has_btn s \<or> \<not> has_dropdown s"
  shows "init_header ((init_header s)\<lparr>has_btn := True, has_dropdown := True\<rparr>)
           = (init_header s)\<lparr>has_btn := True, has_dropdown := True\<rparr>
         \<and> bound (init_header s) = bound s"
  using assms by (auto simp: init_header_def)

theorem early_init_disables_widget_witness:
  "\<not> init_done (fresh_page False True False None (Fragment []))
   \<and> \<not> has_btn (fresh_page False True False None (Fragment []))
   \<and> \<not> bound (init_header ((init_header (fresh_page False True False None (Fragment [])))
                 \<lparr>has_btn := True, has_dropdown := True\<rparr>))"
proof -
  let ?s = "fresh_page False True False None (Fragment [])"
  have h1: "\<not> init_done ?s" and nb: "\<not> has_btn ?s" by (simp_all add: fresh_page_def)
  then have h2: "\<not> has_btn ?s \<or> \<not> has_dropdown ?s" by simp
  have "\<not> bound ?s" by (simp add: fresh_page_def)
  with early_init_disables_widget [OF h1 h2] h1 nb show ?thesis by simp
qed

subsection \<open>Refinement of the specification's state machine\<close>

text \<open>
  C26. Every event on a reachable page is one transition of the specification's menu
  machine (\<open>Abstract.spec_step\<close>) on the abstraction \<open>abs_menu\<close> (open, loaded,
  loads in flight): closing, opening a loaded menu, starting a load from a closed and
  unloaded menu, completing a load (which opens it), or nothing.
\<close>

theorem step_refines_spec:
  "reachable s \<Longrightarrow> spec_step (abs_menu s) (abs_menu (step s e))"
  by (rule menu_sim [OF reachable_widget_inv])

theorem step_refines_spec_witness:
  "reachable demo_open
   \<and> spec_step (abs_menu demo_open) (abs_menu (step demo_open (Click T_Outside)))"
  using step_refines_spec [OF demo_reachable(2), of "Click T_Outside"] demo_reachable(2)
  by simp

text \<open>
  C27. In every reachable page an open panel has its content loaded: the panel only
  opens once \<^verbatim>\<open>loadMenuHtml\<close> has finished, successfully or not.
\<close>

theorem reachable_open_loaded:
  "reachable s \<Longrightarrow> open_class s \<Longrightarrow> menu_loaded s"
  using spec_reach_open_loaded [OF reachable_spec_reach] by (simp add: abs_menu_def)

theorem reachable_open_loaded_witness:
  "reachable demo_open \<and> open_class demo_open \<and> menu_loaded demo_open"
proof -
  have "open_class demo_open" by (simp add: eval_defs)
  with reachable_open_loaded [OF demo_reachable(2)] demo_reachable(2) show ?thesis by simp
qed


subsection \<open>Requests and progress\<close>

text \<open>
  C30. The specification's ``at most one network request per page load'' holds for every
  run in which the user does not activate the trigger again while a request is in
  flight (\<open>Requests.serial\<close>); C19 shows that it fails otherwise.
\<close>

theorem serial_single_request:
  assumes "aria0 \<noteq> Some ''true''" and "serial (fresh_page hb hdd pf aria0 p0) es"
  shows "requests (run (fresh_page hb hdd pf aria0 p0) es) \<le> 1"
proof (rule serial_requests)
  show "widget_inv (fresh_page hb hdd pf aria0 p0)" using assms(1) by (rule inv_fresh_page)
next
  show "serial (fresh_page hb hdd pf aria0 p0) es" by (rule assms(2))
qed (simp_all add: req_inv_def fresh_page_def)

theorem serial_single_request_witness:
  "None \<noteq> Some ''true''
   \<and> serial demo_host [Init, Click T_Btn, Fetch_Done demo_ok, Click T_Outside, Click T_Btn]
   \<and> requests (run demo_host [Init, Click T_Btn, Fetch_Done demo_ok, Click T_Outside, Click T_Btn])
       \<le> 1"
proof -
  have ser: "serial (fresh_page True True False None (Fragment []))
          [Init, Click T_Btn, Fetch_Done demo_ok, Click T_Outside, Click T_Btn]"
    by (simp add: eval_defs trigger_event_def)
  have "None \<noteq> Some ''true''" by simp
  with serial_single_request [OF _ ser] ser show ?thesis by (simp only: demo_host_def simp_thms)
qed

text \<open>
  C31. On a reachable page where the widget is bound, one activation of the closed
  trigger followed by one answer of the network (whichever: success, an HTTP error or a
  transport failure, or none pending) leaves the panel open with its content loaded.
\<close>

theorem activation_opens:
  assumes "reachable s" and "bound s" and "\<not> open_class s"
  shows "open_class (run s [Click T_Btn, Fetch_Done r])
         \<and> menu_loaded (run s [Click T_Btn, Fetch_Done r])"
proof -
  have inv: "widget_inv s" using assms(1) by (rule reachable_widget_inv)
  show ?thesis
  proof (cases "menu_loaded s")
    case True
    then show ?thesis
      using fetch_done_opens [of "open_menu s" r]
      by (simp add: dispatch_click_btn_loaded [OF inv assms(3,2) True])
  next
    case False
    then show ?thesis
      using fetch_done_opens [of "load_fetch_start (set_panel (Note Loading) s)" r]
      by (simp add: dispatch_click_btn_unloaded [OF inv assms(3,2) False])
  qed
qed

theorem activation_opens_witness:
  "reachable demo_bound \<and> bound demo_bound \<and> \<not> open_class demo_bound
   \<and> open_class (run demo_bound [Click T_Btn, Fetch_Done Network_Error])"
proof -
  have "bound demo_bound" "\<not> open_class demo_bound" by (simp_all add: eval_defs)
  with activation_opens [OF demo_reachable(1) this, of Network_Error] demo_reachable(1)
  show ?thesis by simp
qed


subsection \<open>Where the focus is\<close>

text \<open>
  C35. In every reachable page the focus is never left on an element that is gone: a
  focused element of the panel is one of its current elements that the code's selector
  matches, and the panel has the focus only if the host made it focusable.
\<close>

theorem reachable_focus_valid: "reachable s \<Longrightarrow> focus_ok s"
  by (rule reachable_focus_ok)

theorem reachable_focus_valid_witness:
  "reachable demo_open \<and> focus_ok demo_open \<and> active demo_open = T_Item 1"
proof -
  have "active demo_open = T_Item 1" by (simp add: eval_defs)
  with reachable_focus_valid [OF demo_reachable(2)] demo_reachable(2) show ?thesis by simp
qed

subsection \<open>The suspended listeners all complete\<close>

text \<open>
  C36. If the network answers every outstanding request in turn, the suspended click
  listeners all run to completion: the loop ends with no continuation left, and if any
  was pending the panel is then open with its content loaded.
\<close>

theorem drain_terminates:
  "\<exists>t. drain r s = Some t \<and> pending t = 0 \<and> (0 < pending s \<longrightarrow> open_class t \<and> menu_loaded t)"
proof -
  obtain t where t: "drain r s = Some t" using drain_Some by blast
  then show ?thesis using drain_stop drain_opens by blast
qed

theorem drain_terminates_witness:
  "0 < pending (run demo_bound [Click T_Btn, Click T_Btn])
   \<and> (\<exists>t. drain Network_Error (run demo_bound [Click T_Btn, Click T_Btn]) = Some t
          \<and> pending t = 0 \<and> open_class t)"
proof -
  have p: "0 < pending (run demo_bound [Click T_Btn, Click T_Btn])" by (simp add: eval_defs)
  with drain_terminates [of Network_Error "run demo_bound [Click T_Btn, Click T_Btn]"]
  show ?thesis by blast
qed


subsection \<open>The trigger's keys on an open panel\<close>

text \<open>
  C37. ArrowDown on the trigger of an open panel with at least two items, a case the
  specification leaves open, also ends on the second item: the trigger's listener focuses
  the first item, and \<^verbatim>\<open>keyHandler\<close>, registered on \<^verbatim>\<open>document\<close> since the panel
  opened, moves the focus one further.
\<close>

theorem open_trigger_arrow_down_second:
  assumes "reachable s" and "open_class s" and "active s = T_Btn"
    and "2 \<le> length (arrow_items (panel s))"
  shows "open_class (step s (Key ''ArrowDown''))
         \<and> active (step s (Key ''ArrowDown'')) = arrow_items (panel s) ! 1"
proof -
  have inv: "widget_inv s" using assms(1) by (rule reachable_widget_inv)
  have b: "bound s" using inv assms(2) by (rule widget_inv_open_bound)
  have kh: "Key_Handler \<in> doc_listeners s" using open_listeners [OF inv assms(2)] by simp
  from assms(4) obtain e rest where q: "query_focusables (panel s) = e # rest"
    by (cases "query_focusables (panel s)") (auto simp: arrow_items_def)
  have "btn_keydown_handler ''ArrowDown'' s = focus (T_Item (eid e)) s"
    using assms(2) q by (simp add: btn_keydown_handler_def query_first_focusable_hd)
  with key_down_from_first [OF assms(2) q assms(4)] kh b assms(2,3) show ?thesis
    by (simp add: dispatch_key_def)
qed

theorem open_trigger_arrow_down_second_witness:
  "reachable (step demo_open (Focus_Move T_Btn)) \<and> open_class (step demo_open (Focus_Move T_Btn))
   \<and> active (step demo_open (Focus_Move T_Btn)) = T_Btn
   \<and> 2 \<le> length (arrow_items (panel (step demo_open (Focus_Move T_Btn))))
   \<and> active (step (step demo_open (Focus_Move T_Btn)) (Key ''ArrowDown'')) = T_Item 2"
proof -
  let ?s = "step demo_open (Focus_Move T_Btn)"
  have r: "reachable ?s" using demo_reachable(2) by (rule reachable.step)
  have h: "open_class ?s" "active ?s = T_Btn" "2 \<le> length (arrow_items (panel ?s))"
    "arrow_items (panel ?s) ! 1 = T_Item 2"
    by (simp_all add: eval_defs)
  with open_trigger_arrow_down_second [OF r h(1-3)] r show ?thesis by simp
qed


subsection \<open>What a load leaves visible and logged\<close>

text \<open>
  C38. In every reachable page the console holds at most one entry per answered request:
  its entries and the requests still in flight together never outnumber the requests
  issued, so a failed load logs exactly once and nothing else logs.
\<close>

theorem reachable_console_bound:
  "reachable s \<Longrightarrow> length (console s) + pending s \<le> requests s"
  using reachable_console_inv by (simp add: console_inv_def)

theorem reachable_console_bound_witness:
  "reachable (run demo_bound [Click T_Btn, Fetch_Done Network_Error])
   \<and> length (console (run demo_bound [Click T_Btn, Fetch_Done Network_Error])) = 1
   \<and> length (console (run demo_bound [Click T_Btn, Fetch_Done Network_Error]))
       + pending (run demo_bound [Click T_Btn, Fetch_Done Network_Error])
     \<le> requests (run demo_bound [Click T_Btn, Fetch_Done Network_Error])"
proof -
  let ?s = "run demo_bound [Click T_Btn, Fetch_Done Network_Error]"
  have r: "reachable ?s" using demo_reachable(1) by (rule reachable_run)
  have "length (console ?s) = 1" by (simp add: eval_defs)
  with reachable_console_bound [OF r] r show ?thesis by simp
qed

text \<open>
  C39. An open/close cycle by the trigger on a closed, loaded panel gives back the page
  it started from, except that \<^verbatim>\<open>aria-expanded\<close> now reads \<^verbatim>\<open>"false"\<close> and the
  trigger has the focus: no listener, class or content is left behind.
\<close>

theorem open_close_roundtrip:
  assumes "reachable s" and "bound s" and "\<not> open_class s" and "menu_loaded s"
  shows "run s [Click T_Btn, Click T_Btn] = s\<lparr>aria_expanded := Some ''false'', active := T_Btn\<rparr>"
proof -
  have inv: "widget_inv s" using assms(1) by (rule reachable_widget_inv)
  have o: "dispatch_click T_Btn s = open_menu s"
    using dispatch_click_btn_loaded [OF inv assms(3,2,4)] .
  have inv': "widget_inv (open_menu s)" using inv assms(2) by (rule inv_open_menu)
  have c: "dispatch_click T_Btn (open_menu s) = close_menu (open_menu s)"
    using dispatch_click_btn_open [OF inv'] by simp
  have "doc_listeners s = {}" using inv assms(3) by (rule closed_no_listeners)
  with o c assms(3) show ?thesis by (simp add: close_open_menu)
qed

theorem open_close_roundtrip_witness:
  "reachable demo_closed \<and> bound demo_closed \<and> \<not> open_class demo_closed
   \<and> menu_loaded demo_closed \<and> run demo_closed [Click T_Btn, Click T_Btn] = demo_closed"
proof -
  have h: "bound demo_closed" "\<not> open_class demo_closed" "menu_loaded demo_closed"
    by (simp_all add: eval_defs)
  have "aria_expanded demo_closed = Some ''false''" "active demo_closed = T_Btn"
    by (simp_all add: eval_defs)
  then have "demo_closed\<lparr>aria_expanded := Some ''false'', active := T_Btn\<rparr> = demo_closed"
    by simp
  with open_close_roundtrip [OF demo_reachable(3) h] demo_reachable(3) h show ?thesis by simp
qed

text \<open>
  C40. While a request is in flight and the menu is not yet loaded, the panel shows the
  ``Loading navigation'' placeholder, whatever else the user does; a request that never
  settles leaves it there for good.
\<close>

theorem hung_request_shows_loading:
  "reachable s \<Longrightarrow> \<not> menu_loaded s \<Longrightarrow> 0 < pending s \<Longrightarrow> panel s = Note Loading"
  using reachable_loading_inv by (simp add: loading_inv_def)

theorem hung_request_shows_loading_witness:
  "reachable (run demo_bound [Click T_Btn, Click T_Outside, Key ''Escape''])
   \<and> \<not> menu_loaded (run demo_bound [Click T_Btn, Click T_Outside, Key ''Escape''])
   \<and> 0 < pending (run demo_bound [Click T_Btn, Click T_Outside, Key ''Escape''])
   \<and> panel (run demo_bound [Click T_Btn, Click T_Outside, Key ''Escape'']) = Note Loading"
proof -
  let ?s = "run demo_bound [Click T_Btn, Click T_Outside, Key ''Escape'']"
  have r: "reachable ?s" using demo_reachable(1) by (rule reachable_run)
  have h: "\<not> menu_loaded ?s" "0 < pending ?s" by (simp_all add: eval_defs)
  with hung_request_shows_loading [OF r h] r show ?thesis by simp
qed


subsection \<open>Opening after a failed load\<close>

text \<open>
  C24. When the load fails and the host did not make the panel focusable, opening the
  panel does not move the focus into it: the error placeholder holds no focusable element
  and \<^verbatim>\<open>dropdown.focus()\<close> (line 50) does nothing, so the focus stays where it was
  (falling back to the body only if it was on the replaced content) -- not on the panel,
  as the specification's ``falling back to the panel itself'' has it.
\<close>

theorem failed_load_keeps_focus:
  assumes "0 < pending s" and "try_load r = Inl err" and "\<not> panel_focusable s"
  shows "open_class (fetch_done r s) \<and> panel (fetch_done r s) = Note Load_Failed
         \<and> active (fetch_done r s) = (case active s of T_Item _ \<Rightarrow> T_Outside | t \<Rightarrow> t)"
  using assms
  by (simp add: fetch_done_pending load_finish_def load_failure_def open_menu_active
      set_panel_def dom_query_defs split: target.splits)

theorem failed_load_keeps_focus_witness:
  "0 < pending (demo_bound\<lparr>pending := 1, active := T_Btn\<rparr>)
   \<and> try_load Network_Error = Inl Fetch_Failed
   \<and> \<not> panel_focusable (demo_bound\<lparr>pending := 1, active := T_Btn\<rparr>)
   \<and> active (fetch_done Network_Error (demo_bound\<lparr>pending := 1, active := T_Btn\<rparr>)) = T_Btn"
proof -
  have h: "0 < pending (demo_bound\<lparr>pending := 1, active := T_Btn\<rparr>)"
    "try_load Network_Error = Inl Fetch_Failed"
    "\<not> panel_focusable (demo_bound\<lparr>pending := 1, active := T_Btn\<rparr>)"
    by (simp_all add: eval_defs)
  with failed_load_keeps_focus [OF h] show ?thesis by simp
qed

subsection \<open>Arrow keys on a closed panel\<close>



end
